theory Spec2Isabelle
  imports Complex_Main
begin

section \<open>JavaScript values used by the handlers\<close>

text \<open>
  A request field or a database column that holds text is either absent (\<open>undefined\<close> in a
  request body), SQL \<open>NULL\<close> (\<open>null\<close> in a row) or a string. A string is a list of code
  units; the model covers code units below 256.
\<close>

datatype jstext = Undefined | Null | Str string

text \<open>JavaScript truthiness of such a value: \<open>!v\<close> is \<open>\<not> truthy v\<close>.\<close>

fun truthy :: "jstext \<Rightarrow> bool" where
  "truthy Undefined = False"
| "truthy Null = False"
| "truthy (Str s) = (s \<noteq> [])"

text \<open>\<open>a || b\<close> on two such values.\<close>

definition js_or :: "jstext \<Rightarrow> jstext \<Rightarrow> jstext" where
  "js_or a b = (if truthy a then a else b)"

text \<open>How a template literal \<open>`${v}`\<close> prints the value.\<close>

fun tmpl :: "jstext \<Rightarrow> string" where
  "tmpl Undefined = ''undefined''"
| "tmpl Null = ''null''"
| "tmpl (Str s) = s"

text \<open>The mysql2 driver binds an \<open>undefined\<close> parameter as \<open>NULL\<close>.\<close>

fun sql_param :: "jstext \<Rightarrow> jstext" where
  "sql_param Undefined = Null"
| "sql_param v = v"

subsection \<open>String operations\<close>

text \<open>
  \<open>String.prototype.trim\<close> removes white space and line terminators from both ends.
  Below 256 these are the code units 9 (TAB), 10 (LF), 11 (VT), 12 (FF), 13 (CR),
  32 (SPACE) and 160 (NBSP).
\<close>

definition is_js_space :: "char \<Rightarrow> bool" where
  "is_js_space c = ((of_char c :: nat) \<in> {9, 10, 11, 12, 13, 32, 160})"

definition trim :: "string \<Rightarrow> string" where
  "trim s = rev (dropWhile is_js_space (rev (dropWhile is_js_space s)))"

fun starts_with :: "string \<Rightarrow> string \<Rightarrow> bool" where
  "starts_with s [] = True"
| "starts_with [] (n # ns) = False"
| "starts_with (c # cs) (n # ns) = (c = n \<and> starts_with cs ns)"

text \<open>\<open>s.includes(needle)\<close>: the needle occurs in \<open>s\<close> as a contiguous run.\<close>

fun includes_str :: "string \<Rightarrow> string \<Rightarrow> bool" where
  "includes_str [] needle = (needle = [])"
| "includes_str (c # cs) needle = (starts_with (c # cs) needle \<or> includes_str cs needle)"

text \<open>
  Case folding of one code unit. A regular expression with the flag \<open>i\<close> (and without
  \<open>u\<close>) compares the upper-cased code units, and never lets a code unit from 128 on match
  an ASCII one, so for an ASCII pattern only the letters \<open>A\<close> to \<open>Z\<close> fold.
\<close>

definition ascii_lower :: "char \<Rightarrow> char" where
  "ascii_lower c =
     (let n = (of_char c :: nat)
      in if 65 \<le> n \<and> n \<le> 90 then char_of (n + 32) else c)"

text \<open>\<open>/needle/i.test(s)\<close> for a pattern of plain letters.\<close>

definition regex_test_i :: "string \<Rightarrow> string \<Rightarrow> bool" where
  "regex_test_i needle s = includes_str (map ascii_lower s) (map ascii_lower needle)"

text \<open>
  \<open>String.prototype.toLowerCase\<close> on code units below 256: the ASCII capitals and the
  Latin-1 capitals \<open>0xC0\<close> to \<open>0xDE\<close> (the multiplication sign \<open>0xD7\<close> apart) move up
  by 32.
\<close>

definition to_lower_char :: "char \<Rightarrow> char" where
  "to_lower_char c =
     (let n = (of_char c :: nat)
      in if (65 \<le> n \<and> n \<le> 90) \<or> (192 \<le> n \<and> n \<le> 222 \<and> n \<noteq> 215)
         then char_of (n + 32) else c)"

definition toLowerCase :: "string \<Rightarrow> string" where
  "toLowerCase s = map to_lower_char s"

text \<open>Decimal printing of a number inside a template literal.\<close>

definition digit_char :: "nat \<Rightarrow> char" where
  "digit_char d = char_of (48 + d)"

function show_nat :: "nat \<Rightarrow> string" where
  "show_nat n = (if n < 10 then [digit_char n] else show_nat (n div 10) @ [digit_char (n mod 10)])"
  by pat_completeness auto
termination
  by (relation "measure (\<lambda>n. n)") auto

section \<open>Order status normalisation\<close>

text \<open>
  The body of the \<open>try\<close> block of \<open>app.put("/orders/:id/status")\<close>, lines 468 to 471:
  three independent \<open>if\<close> statements, each testing the current value of
  \<open>normalizedStatus\<close> and overwriting it.
\<close>

definition normalizeStatus :: "string \<Rightarrow> string" where
  "normalizeStatus status =
     (let n0 = trim status;
          n1 = (if regex_test_i ''cancelled'' n0 then ''Cancelled/Returned'' else n0);
          n2 = (if regex_test_i ''delivered'' n1 then ''Delivered'' else n1);
          n3 = (if regex_test_i ''pending'' n2 then ''Pending'' else n2)
      in n3)"

section \<open>The store\<close>

text \<open>
  The MySQL tables the handlers use, each a list of rows in insertion order, with the
  \<open>AUTO_INCREMENT\<close> counter of each table. Prices and totals are exact rationals, stock
  and quantities are integers: the rounding of JavaScript's doubles is outside the model.
  Timestamps are numbers read from a clock.
\<close>

record product =
  p_id :: nat
  p_name :: jstext
  p_price :: rat
  p_stock :: int
  p_category :: jstext
  p_description :: jstext
  p_image_url :: jstext
  p_created_at :: nat

record order_row =
  o_id :: nat
  o_user_name :: jstext
  o_total :: rat
  o_payment_mode :: jstext
  o_status :: jstext
  o_created_at :: nat

record order_item_row =
  oi_id :: nat
  oi_order_id :: nat
  oi_product_id :: nat
  oi_product_name :: jstext
  oi_quantity :: int
  oi_price :: rat
  oi_total :: rat

record notification =
  n_id :: nat
  n_type :: string
  n_reference_id :: nat
  n_message :: string
  n_isRead :: bool
  n_created_at :: nat

record tables =
  products :: "product list"
  orders :: "order_row list"
  order_items :: "order_item_row list"
  notifications :: "notification list"
  products_ai :: nat
  orders_ai :: nat
  order_items_ai :: nat
  notifications_ai :: nat

text \<open>
  Every call that reaches the database is recorded, so that "the handler never touched
  storage" is a statement about the record. Queries are taken to succeed: a failing
  connection or statement is outside the model.
\<close>

datatype db_call =
    GetConnection | BeginTransaction | Commit | Rollback | Release
  | SelectProductsIn "nat list"
  | InsertOrder
  | InsertOrderItems
  | UpdateProductStock nat
  | InsertNotification
  | InsertProduct
  | SelectAllProducts
  | SelectProduct nat
  | UpdateProduct nat
  | UpdateOrderStatus nat
  | SelectOrder nat

text \<open>
  What a handler can see and change: the tables, the events published with
  \<open>io.emit("new_notification", ...)\<close>, the record of database calls, and the clock that
  \<open>NOW()\<close> reads.
\<close>

record world =
  db :: tables
  emitted :: "notification list"
  db_log :: "db_call list"
  now :: nat

definition logc :: "db_call \<Rightarrow> world \<Rightarrow> world" where
  "logc c w = w\<lparr>db_log := db_log w @ [c]\<rparr>"

section \<open>Helpers (lines 124 to 164)\<close>

text \<open>
  \<open>sendNotification\<close>: one row in \<open>notifications\<close>, then the same record published. Its
  own \<open>try\<close>/\<open>catch\<close> keeps every failure inside, so it returns no error.
\<close>

definition sendNotification :: "string \<Rightarrow> nat \<Rightarrow> string \<Rightarrow> world \<Rightarrow> world" where
  "sendNotification type reference_id message w =
     (let t = db w;
          insertId = notifications_ai t;
          row = \<lparr>n_id = insertId, n_type = type, n_reference_id = reference_id,
                 n_message = message, n_isRead = False, n_created_at = now w\<rparr>
      in (logc InsertNotification w)
           \<lparr>db := t\<lparr>notifications := notifications t @ [row], notifications_ai := Suc insertId\<rparr>,
            emitted := emitted w @ [row]\<rparr>)"

definition low_stock_message :: "jstext \<Rightarrow> string" where
  "low_stock_message name =
     ''Product '' @ [CHR 0x27] @ tmpl name @ [CHR 0x27] @ '' is low on supplies!''"

definition checkLowStock :: "nat \<Rightarrow> int \<Rightarrow> jstext \<Rightarrow> world \<Rightarrow> world" where
  "checkLowStock pid stock name w =
     (let numericStock = stock
      in if numericStock < 20
         then sendNotification ''low on supplies'' pid (low_stock_message name) w
         else w)"

definition orderStatusNotification :: "order_row \<Rightarrow> world \<Rightarrow> world" where
  "orderStatusNotification order w =
     (case o_status order of
        Str s \<Rightarrow>
          if s = [] then w
          else
            let status = toLowerCase s;
                message =
                  (if includes_str status ''delivered''
                   then ''Order #'' @ show_nat (o_id order) @ '' for '' @ tmpl (o_user_name order)
                          @ '' has been delivered!''
                   else if includes_str status ''cancelled'' \<or> includes_str status ''returned''
                   then ''Order #'' @ show_nat (o_id order) @ '' for '' @ tmpl (o_user_name order)
                          @ '' has been cancelled/returned!''
                   else [])
            in if message \<noteq> [] then sendNotification ''status'' (o_id order) message w else w
      | _ \<Rightarrow> w)"

section \<open>Order placement: \<open>app.post("/orders")\<close>, lines 413 to 460\<close>

record order_item_req =
  i_product_id :: nat
  i_quantity :: int

record order_req =
  user_name :: jstext
  payment_mode :: jstext
  items :: "order_item_req list option"

record order_item_data =
  d_product_id :: nat
  d_product_name :: jstext
  d_quantity :: int
  d_price :: rat
  d_total :: rat

text \<open>
  The errors the transaction body throws: the two \<open>new Error(...)\<close> of the pricing
  callback, and the \<open>TypeError\<close> of reading \<open>product.stock\<close> from \<open>undefined\<close> in the
  stock loop.
\<close>

datatype thrown = ProductNotFound nat | NotEnoughStock jstext | TypeErrorNoProduct

fun err_message :: "thrown \<Rightarrow> string" where
  "err_message (ProductNotFound pid) = ''Product '' @ show_nat pid @ '' not found''"
| "err_message (NotEnoughStock name) = ''Not enough stock for '' @ tmpl name"
| "err_message TypeErrorNoProduct =
     ''Cannot read properties of undefined (reading '' @ [CHR 0x27] @ ''stock'' @ [CHR 0x27] @ '')''"

text \<open>The answers of the handlers: the HTTP status with the body's content.\<close>

record product_json =
  j_id :: nat
  j_name :: jstext
  j_price :: rat
  j_stock :: int
  j_category :: jstext
  j_description :: jstext
  j_image_url :: jstext

record product_view =
  pv_product :: product
  supply_alert :: string

datatype response =
    Status400 string
  | Status404 string
  | Status500 string
  | OrderPlaced nat
  | StatusUpdated
  | ProductAdded string product_json
  | ProductUpdated string product_json
  | ProductSaved product_json
  | ProductList "product_view list"
  | ProductJson product_view

text \<open>\<open>!user_name || !payment_mode || !items?.length\<close>\<close>

definition missing_fields :: "order_req \<Rightarrow> bool" where
  "missing_fields req =
     (\<not> truthy (user_name req) \<or> \<not> truthy (payment_mode req) \<or>
      (case items req of None \<Rightarrow> True | Some its \<Rightarrow> length its = 0))"

text \<open>\<open>products.find(p => p.id === item.product_id)\<close>\<close>

definition find_product :: "product list \<Rightarrow> nat \<Rightarrow> product option" where
  "find_product prods pid = find (\<lambda>p. p_id p = pid) prods"

text \<open>
  The callback of \<open>items.map\<close> (lines 425 to 432), run over the items from left to right
  with the running \<open>orderTotal\<close>; a \<open>throw\<close> ends the whole map.
\<close>

fun map_items ::
  "product list \<Rightarrow> order_item_req list \<Rightarrow> rat \<Rightarrow> thrown + (order_item_data list \<times> rat)" where
  "map_items prods [] orderTotal = Inr ([], orderTotal)"
| "map_items prods (item # rest) orderTotal =
     (case find_product prods (i_product_id item) of
        None \<Rightarrow> Inl (ProductNotFound (i_product_id item))
      | Some product \<Rightarrow>
          if i_quantity item > p_stock product then Inl (NotEnoughStock (p_name product))
          else
            let total = p_price product * of_int (i_quantity item)
            in (case map_items prods rest (orderTotal + total) of
                  Inl e \<Rightarrow> Inl e
                | Inr (ds, tot) \<Rightarrow>
                    Inr (\<lparr>d_product_id = p_id product, d_product_name = p_name product,
                          d_quantity = i_quantity item, d_price = p_price product,
                          d_total = total\<rparr> # ds, tot)))"

text \<open>\<open>SELECT id, name, price, stock FROM products WHERE id IN (?)\<close>\<close>

definition select_products_in :: "nat list \<Rightarrow> world \<Rightarrow> world \<times> product list" where
  "select_products_in productIds w =
     (logc (SelectProductsIn productIds) w,
      filter (\<lambda>p. p_id p \<in> set productIds) (products (db w)))"

text \<open>\<open>INSERT INTO orders (...) VALUES (?, ?, ?, 'pending', NOW())\<close>, giving \<open>insertId\<close>.\<close>

definition insert_order :: "jstext \<Rightarrow> rat \<Rightarrow> jstext \<Rightarrow> world \<Rightarrow> world \<times> nat" where
  "insert_order uname tot pmode w =
     (let t = db w;
          insertId = orders_ai t;
          row = \<lparr>o_id = insertId, o_user_name = sql_param uname, o_total = tot,
                 o_payment_mode = sql_param pmode, o_status = Str ''pending'',
                 o_created_at = now w\<rparr>
      in ((logc InsertOrder w)\<lparr>db := t\<lparr>orders := orders t @ [row], orders_ai := Suc insertId\<rparr>\<rparr>,
          insertId))"

text \<open>The rows of the bulk \<open>INSERT INTO order_items ... VALUES ?\<close>, numbered in order.\<close>

fun order_item_rows :: "nat \<Rightarrow> nat \<Rightarrow> order_item_data list \<Rightarrow> order_item_row list" where
  "order_item_rows orderId k [] = []"
| "order_item_rows orderId k (i # rest) =
     \<lparr>oi_id = k, oi_order_id = orderId, oi_product_id = d_product_id i,
      oi_product_name = d_product_name i, oi_quantity = d_quantity i, oi_price = d_price i,
      oi_total = d_total i\<rparr> # order_item_rows orderId (Suc k) rest"

definition insert_order_items :: "nat \<Rightarrow> order_item_data list \<Rightarrow> world \<Rightarrow> world" where
  "insert_order_items orderId orderItemsData w =
     (let t = db w
      in (logc InsertOrderItems w)
           \<lparr>db := t\<lparr>order_items := order_items t @ order_item_rows orderId (order_items_ai t) orderItemsData,
                    order_items_ai := order_items_ai t + length orderItemsData\<rparr>\<rparr>)"

text \<open>\<open>UPDATE products SET stock=? WHERE id=?\<close>\<close>

definition update_stock :: "int \<Rightarrow> nat \<Rightarrow> world \<Rightarrow> world" where
  "update_stock stock pid w =
     (let t = db w
      in (logc (UpdateProductStock pid) w)
           \<lparr>db := t\<lparr>products := map (\<lambda>p. if p_id p = pid then p\<lparr>p_stock := stock\<rparr> else p) (products t)\<rparr>\<rparr>)"

text \<open>
  The stock loop (lines 447 to 450). Each round looks the product up again in the rows
  read at the start of the transaction and writes that row's stock minus the quantity.
\<close>

fun update_stock_loop ::
  "product list \<Rightarrow> order_item_data list \<Rightarrow> world \<Rightarrow> (thrown \<times> world) + world" where
  "update_stock_loop prods [] w = Inr w"
| "update_stock_loop prods (item # rest) w =
     (case find_product prods (d_product_id item) of
        None \<Rightarrow> Inl (TypeErrorNoProduct, w)
      | Some product \<Rightarrow>
          update_stock_loop prods rest
            (update_stock (p_stock product - d_quantity item) (p_id product) w))"

text \<open>\<open>conn.rollback()\<close> puts the tables back as they were when the transaction began.\<close>

definition rollback :: "tables \<Rightarrow> world \<Rightarrow> world" where
  "rollback snapshot w = logc Release (logc Rollback (w\<lparr>db := snapshot\<rparr>))"

definition post_orders :: "order_req \<Rightarrow> world \<Rightarrow> world \<times> response" where
  "post_orders req w =
     (if missing_fields req then (w, Status400 ''Missing required fields or items'')
      else
        let its = (case items req of Some l \<Rightarrow> l | None \<Rightarrow> []);
            w0 = logc BeginTransaction (logc GetConnection w);
            snapshot = db w0;
            productIds = map i_product_id its;
            (w1, prods) = select_products_in productIds w0
        in case map_items prods its 0 of
             Inl err \<Rightarrow> (rollback snapshot w1, Status500 (err_message err))
           | Inr (orderItemsData, orderTotal) \<Rightarrow>
               let (w2, orderId) = insert_order (user_name req) orderTotal (payment_mode req) w1;
                   w3 = insert_order_items orderId orderItemsData w2
               in (case update_stock_loop prods orderItemsData w3 of
                     Inl (err, w4) \<Rightarrow> (rollback snapshot w4, Status500 (err_message err))
                   | Inr w4 \<Rightarrow> (logc Release (logc Commit w4), OrderPlaced orderId)))"

section \<open>Status update: \<open>app.put("/orders/:id/status")\<close>, lines 462 to 481\<close>

text \<open>\<open>UPDATE orders SET status=? WHERE id=?\<close>\<close>

definition update_order_status :: "string \<Rightarrow> nat \<Rightarrow> world \<Rightarrow> world" where
  "update_order_status status oid w =
     (let t = db w
      in (logc (UpdateOrderStatus oid) w)
           \<lparr>db := t\<lparr>orders := map (\<lambda>r. if o_id r = oid then r\<lparr>o_status := Str status\<rparr> else r) (orders t)\<rparr>\<rparr>)"

text \<open>\<open>SELECT id, user_name, status FROM orders WHERE id=?\<close>\<close>

definition select_order :: "nat \<Rightarrow> world \<Rightarrow> world \<times> order_row list" where
  "select_order oid w = (logc (SelectOrder oid) w, filter (\<lambda>r. o_id r = oid) (orders (db w)))"

text \<open>
  A status that passes \<open>!status\<close> is a non-empty string, and \<open>tmpl\<close> is that string.
\<close>

definition put_order_status :: "nat \<Rightarrow> jstext \<Rightarrow> world \<Rightarrow> world \<times> response" where
  "put_order_status oid status w =
     (if \<not> truthy status then (w, Status400 ''Status is required'')
      else
        let normalizedStatus = normalizeStatus (tmpl status);
            w1 = update_order_status normalizedStatus oid w;
            (w2, results) = select_order oid w1;
            w3 = (case results of [] \<Rightarrow> w2 | r # _ \<Rightarrow> orderStatusNotification r w2)
        in (w3, StatusUpdated))"

section \<open>Products: lines 171 to 300\<close>

record upload =
  f_path :: jstext
  f_secure_url :: jstext

text \<open>
  The fields of the multipart body. \<open>price\<close> and \<open>stock\<close> are taken after
  \<open>Number(...)\<close>, for requests whose price and stock are numeric.
\<close>

record product_body =
  b_name :: jstext
  b_price :: rat
  b_stock :: int
  b_category :: jstext
  b_description :: jstext
  b_existingImageUrl :: jstext

text \<open>\<open>INSERT INTO products (...) VALUES (?, ?, ?, ?, ?, ?, NOW())\<close>, giving \<open>insertId\<close>.\<close>

definition insert_product ::
  "jstext \<Rightarrow> rat \<Rightarrow> int \<Rightarrow> jstext \<Rightarrow> jstext \<Rightarrow> jstext \<Rightarrow> world \<Rightarrow> world \<times> nat" where
  "insert_product name price stock category description image_url w =
     (let t = db w;
          insertId = products_ai t;
          row = \<lparr>p_id = insertId, p_name = sql_param name, p_price = price, p_stock = stock,
                 p_category = sql_param category, p_description = sql_param description,
                 p_image_url = sql_param image_url, p_created_at = now w\<rparr>
      in ((logc InsertProduct w)\<lparr>db := t\<lparr>products := products t @ [row], products_ai := Suc insertId\<rparr>\<rparr>,
          insertId))"

text \<open>
  The identifier \<open>supplyAlert\<close> read at line 196. The only declaration of that name is the
  \<open>const\<close> at line 288, local to the handler of \<open>app.put("/products/:id")\<close>; in the
  handler of \<open>app.post("/products")\<close> no binding is in scope.
\<close>

definition post_products_supplyAlert :: "string option" where
  "post_products_supplyAlert = None"

text \<open>
  \<open>app.post("/products")\<close>, lines 171 to 211. Reading an identifier with no binding
  throws a \<open>ReferenceError\<close>, which the handler's \<open>catch\<close> answers with status 500.
\<close>

definition post_products :: "product_body \<Rightarrow> upload option \<Rightarrow> world \<Rightarrow> world \<times> response" where
  "post_products body file w =
     (case file of
        None \<Rightarrow> (w, Status400 ''Product image is required'')
      | Some f \<Rightarrow>
          let name = b_name body; stock = b_stock body; price = b_price body;
              category = b_category body; description = b_description body;
              image_url = js_or (f_path f) (f_secure_url f);
              (w1, insertId) = insert_product name price stock category description image_url w;
              w2 = (if stock < 20 then checkLowStock insertId stock name w1 else w1)
          in (case post_products_supplyAlert of
                None \<Rightarrow> (w2, Status500 ''Failed to add product'')
              | Some supplyAlert \<Rightarrow>
                  (w2, ProductAdded supplyAlert
                         \<lparr>j_id = insertId, j_name = name, j_price = price, j_stock = stock,
                          j_category = category, j_description = description,
                          j_image_url = image_url\<rparr>)))"

text \<open>\<open>app.get("/products")\<close>, lines 213 to 228; the newest row first.\<close>

definition with_supply_alert :: "product \<Rightarrow> product_view" where
  "with_supply_alert p =
     \<lparr>pv_product = p, supply_alert = (if p_stock p < 20 then ''LOW ON SUPPLIES'' else ''OK'')\<rparr>"

definition get_products :: "world \<Rightarrow> world \<times> response" where
  "get_products w =
     (let rows = rev (sort_key p_created_at (products (db w)))
      in (logc SelectAllProducts w, ProductList (map with_supply_alert rows)))"

text \<open>\<open>app.get("/products/:id")\<close>, lines 230 to 251.\<close>

definition get_product :: "nat \<Rightarrow> world \<Rightarrow> world \<times> response" where
  "get_product pid w =
     (let rows = filter (\<lambda>p. p_id p = pid) (products (db w));
          w1 = logc (SelectProduct pid) w
      in case rows of
           [] \<Rightarrow> (w1, Status404 ''Product not found'')
         | product # _ \<Rightarrow> (w1, ProductJson (with_supply_alert product)))"

text \<open>\<open>UPDATE products SET name=?, price=?, stock=?, category=?, description=?, image_url=? WHERE id=?\<close>\<close>

definition update_product ::
  "jstext \<Rightarrow> rat \<Rightarrow> int \<Rightarrow> jstext \<Rightarrow> jstext \<Rightarrow> jstext \<Rightarrow> nat \<Rightarrow> world \<Rightarrow> world" where
  "update_product name price stock category description image_url pid w =
     (let t = db w
      in (logc (UpdateProduct pid) w)
           \<lparr>db := t\<lparr>products :=
                map (\<lambda>p. if p_id p = pid
                          then p\<lparr>p_name := sql_param name, p_price := price, p_stock := stock,
                                 p_category := sql_param category,
                                 p_description := sql_param description,
                                 p_image_url := sql_param image_url\<rparr>
                          else p) (products t)\<rparr>\<rparr>)"

text \<open>\<open>app.put("/products/:id")\<close>, lines 253 to 300.\<close>

definition put_products ::
  "nat \<Rightarrow> product_body \<Rightarrow> upload option \<Rightarrow> world \<Rightarrow> world \<times> response" where
  "put_products pid body file w =
     (let name = b_name body; stock = b_stock body; price = b_price body;
          category = b_category body; description = b_description body;
          existingImageUrl = b_existingImageUrl body;
          prevRows = filter (\<lambda>p. p_id p = pid) (products (db w));
          w1 = logc (SelectProduct pid) w
      in case prevRows of
           [] \<Rightarrow> (w1, Status404 ''Product not found'')
         | prev # _ \<Rightarrow>
             let prevStock = p_stock prev;
                 prevName = p_name prev;
                 image_url = (case file of None \<Rightarrow> existingImageUrl
                              | Some f \<Rightarrow> js_or (f_path f) (f_secure_url f));
                 w2 = update_product name price stock category description image_url pid w1;
                 productName = js_or name prevName;
                 w3 = (if stock < 20 \<and> prevStock \<ge> 20
                       then checkLowStock pid stock productName w2 else w2);
                 supplyAlert = (if stock < 20 then ''LOW ON SUPPLIES'' else ''OK'')
             in (w3, ProductUpdated supplyAlert
                       \<lparr>j_id = pid, j_name = name, j_price = price, j_stock = stock,
                        j_category = category, j_description = description,
                        j_image_url = image_url\<rparr>))"

section \<open>The older product update: unnamed source file, lines 209 to 265\<close>

text \<open>
  An earlier version of \<open>app.put("/products/:id")\<close>. Here \<open>price\<close> and \<open>stock\<close> are
  optional: \<open>None\<close> is an absent or empty field, which keeps the stored value, and
  \<open>Some x\<close> is numeric text with the value \<open>x\<close>. Text that is not numeric, which the
  handler refuses with status 400, is left out by these types.
\<close>

record product_body_opt =
  v_name :: jstext
  v_price :: "rat option"
  v_stock :: "int option"
  v_category :: jstext
  v_description :: jstext

definition put_products_older ::
  "nat \<Rightarrow> product_body_opt \<Rightarrow> upload option \<Rightarrow> world \<Rightarrow> world \<times> response" where
  "put_products_older pid body file w =
     (let name = v_name body; category = v_category body; description = v_description body;
          existing = filter (\<lambda>p. p_id p = pid) (products (db w));
          w1 = logc (SelectProduct pid) w
      in case existing of
           [] \<Rightarrow> (w1, Status404 ''Product not found'')
         | product # _ \<Rightarrow>
             let priceNum = (case v_price body of Some x \<Rightarrow> x | None \<Rightarrow> p_price product);
                 stockNum = (case v_stock body of Some x \<Rightarrow> x | None \<Rightarrow> p_stock product);
                 image_url = (case file of Some f \<Rightarrow> f_path f | None \<Rightarrow> p_image_url product);
                 w2 = update_product (js_or name (p_name product)) priceNum stockNum
                        (js_or category (p_category product))
                        (js_or description (p_description product)) image_url pid w1;
                 w3 = (if stockNum < 20
                       then sendNotification ''low on supplies'' pid
                              (low_stock_message (js_or name (p_name product))) w2
                       else w2)
             in (w3, ProductSaved
                       \<lparr>j_id = pid, j_name = js_or name (p_name product), j_price = priceNum,
                        j_stock = stockNum, j_category = js_or category (p_category product),
                        j_description = js_or description (p_description product),
                        j_image_url = image_url\<rparr>))"

section \<open>Requests one after the other\<close>

text \<open>
  The three operations that write a stock, as requests to the server, and a run of such
  requests: each handler starts in the world the one before it left.
\<close>

datatype request =
    ReqCreate product_body "upload option"
  | ReqUpdate nat product_body "upload option"
  | ReqOrder order_req

fun handle :: "request \<Rightarrow> world \<Rightarrow> world" where
  "handle (ReqCreate body file) w = fst (post_products body file w)"
| "handle (ReqUpdate pid body file) w = fst (put_products pid body file w)"
| "handle (ReqOrder req) w = fst (post_orders req w)"

fun run_requests :: "request list \<Rightarrow> world \<Rightarrow> world" where
  "run_requests [] w = w"
| "run_requests (r # rs) w = run_requests rs (handle r w)"

text \<open>The stock a create or update request asks for is not negative.\<close>

fun stock_not_negative :: "request \<Rightarrow> bool" where
  "stock_not_negative (ReqCreate body file) = (0 \<le> b_stock body)"
| "stock_not_negative (ReqUpdate pid body file) = (0 \<le> b_stock body)"
| "stock_not_negative (ReqOrder req) = True"

section \<open>A small shop, for the concrete runs\<close>

definition rose :: product where
  "rose = \<lparr>p_id = 1, p_name = Str ''Rose'', p_price = 5 / 2, p_stock = 5, p_category = Null,
           p_description = Null, p_image_url = Str ''rose.png'', p_created_at = 1\<rparr>"

definition tulip :: product where
  "tulip = \<lparr>p_id = 2, p_name = Str ''Tulip'', p_price = 3, p_stock = 25, p_category = Null,
            p_description = Null, p_image_url = Str ''tulip.png'', p_created_at = 2\<rparr>"

definition shop :: world where
  "shop = \<lparr>db = \<lparr>products = [rose, tulip], orders = [], order_items = [], notifications = [],
                 products_ai = 3, orders_ai = 1, order_items_ai = 1, notifications_ai = 1\<rparr>,
            emitted = [], db_log = [], now = 9\<rparr>"

definition order_of :: "order_item_req list \<Rightarrow> order_req" where
  "order_of its = \<lparr>user_name = Str ''Ann'', payment_mode = Str ''cash'', items = Some its\<rparr>"

definition line :: "nat \<Rightarrow> int \<Rightarrow> order_item_req" where
  "line pid q = \<lparr>i_product_id = pid, i_quantity = q\<rparr>"

definition body_of :: "string \<Rightarrow> rat \<Rightarrow> int \<Rightarrow> product_body" where
  "body_of name price stock =
     \<lparr>b_name = Str name, b_price = price, b_stock = stock, b_category = Undefined,
      b_description = Undefined, b_existingImageUrl = Undefined\<rparr>"

definition lily_png :: upload where
  "lily_png = \<lparr>f_path = Str ''https://img/lily.png'', f_secure_url = Undefined\<rparr>"

text \<open>The shop after one order, still pending.\<close>

definition shop_with_order :: world where
  "shop_with_order =
     shop\<lparr>db := (db shop)\<lparr>orders := [\<lparr>o_id = 1, o_user_name = Str ''Ann'', o_total = 6,
                                         o_payment_mode = Str ''cash'', o_status = Str ''pending'',
                                         o_created_at = 8\<rparr>],
                            orders_ai := 2\<rparr>\<rparr>"


text \<open>A run of three requests: a new product, an update and an order.\<close>

definition sample_requests :: "request list" where
  "sample_requests =
     [ReqCreate (body_of ''Lily'' 4 30) (Some lily_png),
      ReqUpdate 2 (body_of ''Tulip'' 3 0) None,
      ReqOrder (order_of [line 1 5])]"

section \<open>Properties\<close>

subsection \<open>Basic facts about the database operations\<close>

lemma logc_fields [simp]:
  "db (logc c w) = db w" "emitted (logc c w) = emitted w" "now (logc c w) = now w"
  "db_log (logc c w) = db_log w @ [c]"
  by (simp_all add: logc_def)

lemma find_product_id: "find_product prods pid = Some p \<Longrightarrow> p_id p = pid"
  by (auto simp: find_product_def find_Some_iff)

lemma find_product_mem: "find_product prods pid = Some p \<Longrightarrow> p \<in> set prods"
  by (auto simp: find_product_def find_Some_iff)

lemma find_product_filter:
  "pid \<in> S \<Longrightarrow> find_product (filter (\<lambda>p. p_id p \<in> S) ps) pid = find_product ps pid"
  by (induction ps) (auto simp: find_product_def)

lemma select_products_in_fields [simp]:
  "fst (select_products_in ids w) = logc (SelectProductsIn ids) w"
  "snd (select_products_in ids w) = filter (\<lambda>p. p_id p \<in> set ids) (products (db w))"
  by (simp_all add: select_products_in_def)

lemma insert_order_fields [simp]:
  "products (db (fst (insert_order u t pm w))) = products (db w)"
  "notifications (db (fst (insert_order u t pm w))) = notifications (db w)"
  "order_items (db (fst (insert_order u t pm w))) = order_items (db w)"
  "order_items_ai (db (fst (insert_order u t pm w))) = order_items_ai (db w)"
  "emitted (fst (insert_order u t pm w)) = emitted w"
  "now (fst (insert_order u t pm w)) = now w"
  "snd (insert_order u t pm w) = orders_ai (db w)"
  "orders (db (fst (insert_order u t pm w))) =
     orders (db w) @ [\<lparr>o_id = orders_ai (db w), o_user_name = sql_param u, o_total = t,
       o_payment_mode = sql_param pm, o_status = Str ''pending'', o_created_at = now w\<rparr>]"
  by (simp_all add: insert_order_def Let_def)

lemma insert_order_items_fields [simp]:
  "products (db (insert_order_items oid ds w)) = products (db w)"
  "notifications (db (insert_order_items oid ds w)) = notifications (db w)"
  "orders (db (insert_order_items oid ds w)) = orders (db w)"
  "emitted (insert_order_items oid ds w) = emitted w"
  "order_items (db (insert_order_items oid ds w)) =
     order_items (db w) @ order_item_rows oid (order_items_ai (db w)) ds"
  by (simp_all add: insert_order_items_def Let_def)

lemma update_stock_fields [simp]:
  "notifications (db (update_stock s pid w)) = notifications (db w)"
  "orders (db (update_stock s pid w)) = orders (db w)"
  "order_items (db (update_stock s pid w)) = order_items (db w)"
  "emitted (update_stock s pid w) = emitted w"
  "products (db (update_stock s pid w)) =
     map (\<lambda>p. if p_id p = pid then p\<lparr>p_stock := s\<rparr> else p) (products (db w))"
  by (simp_all add: update_stock_def Let_def)

lemma rollback_fields [simp]:
  "db (rollback snap w) = snap" "emitted (rollback snap w) = emitted w"
  by (simp_all add: rollback_def)

lemma update_stock_loop_keeps:
  "update_stock_loop prods ds w = Inr w' \<Longrightarrow>
     notifications (db w') = notifications (db w) \<and> emitted w' = emitted w \<and>
     orders (db w') = orders (db w) \<and> order_items (db w') = order_items (db w)"
  by (induction ds arbitrary: w) (auto split: option.splits)

lemma update_stock_loop_keeps_err:
  "update_stock_loop prods ds w = Inl (e, w') \<Longrightarrow> emitted w' = emitted w"
  by (induction ds arbitrary: w) (auto split: option.splits)

lemma map_items_total:
  "map_items prods its tot = Inr (ds, t) \<Longrightarrow> t = tot + sum_list (map d_total ds)"
proof (induction its arbitrary: tot ds t)
  case Nil
  then show ?case by simp
next
  case (Cons it its)
  from Cons.prems obtain p where p: "find_product prods (i_product_id it) = Some p"
    by (auto split: option.splits)
  let ?total = "p_price p * of_int (i_quantity it)"
  from Cons.prems p obtain ds' where
    rest: "map_items prods its (tot + ?total) = Inr (ds', t)" and
    ds: "ds = \<lparr>d_product_id = p_id p, d_product_name = p_name p,
                d_quantity = i_quantity it, d_price = p_price p, d_total = ?total\<rparr> # ds'"
    by (auto split: if_splits sum.splits simp: Let_def)
  from Cons.IH [OF rest] have "t = tot + ?total + sum_list (map d_total ds')" .
  with ds show ?case by simp
qed

lemma map_items_fails:
  "it \<in> set its \<Longrightarrow>
   find_product prods (i_product_id it) = None \<or>
     (\<exists>p. find_product prods (i_product_id it) = Some p \<and> p_stock p < i_quantity it) \<Longrightarrow>
   \<exists>bad\<in>set its.
     (find_product prods (i_product_id bad) = None \<and>
        map_items prods its tot = Inl (ProductNotFound (i_product_id bad))) \<or>
     (\<exists>p. find_product prods (i_product_id bad) = Some p \<and> p_stock p < i_quantity bad \<and>
        map_items prods its tot = Inl (NotEnoughStock (p_name p)))"
proof (induction its arbitrary: tot)
  case Nil
  then show ?case by simp
next
  case (Cons a its)
  show ?case
  proof (cases "find_product prods (i_product_id a)")
    case None
    then show ?thesis by auto
  next
    case (Some p)
    show ?thesis
    proof (cases "p_stock p < i_quantity a")
      case True
      with Some show ?thesis by auto
    next
      case False
      with Some Cons.prems have "it \<in> set its" by auto
      from Cons.IH [OF this Cons.prems(2), of "tot + p_price p * of_int (i_quantity a)"]
      obtain bad where "bad \<in> set its" and
        "(find_product prods (i_product_id bad) = None \<and>
            map_items prods its (tot + p_price p * of_int (i_quantity a)) =
              Inl (ProductNotFound (i_product_id bad))) \<or>
         (\<exists>q. find_product prods (i_product_id bad) = Some q \<and> p_stock q < i_quantity bad \<and>
            map_items prods its (tot + p_price p * of_int (i_quantity a)) =
              Inl (NotEnoughStock (p_name q)))"
        by blast
      with Some False show ?thesis
        by (intro bexI [of _ bad]) (auto simp: Let_def)
    qed
  qed
qed

subsection \<open>Order placement\<close>

text \<open>
  C1. When the stock check fails for some line of the request (its product is not in the
  table, or its quantity exceeds the product's stock), the transaction is rolled back:
  the tables after the request are the tables before it (no order row, no line row, no
  stock change), nothing is published, and the answer carries the error of a failing line.
\<close>

theorem failed_stock_check_rolls_back:
  assumes "\<not> missing_fields req" and "items req = Some its" and "it \<in> set its"
    and "find_product (products (db w)) (i_product_id it) = None \<or>
         (\<exists>p. find_product (products (db w)) (i_product_id it) = Some p \<and>
              p_stock p < i_quantity it)"
  shows "db (fst (post_orders req w)) = db w \<and>
         emitted (fst (post_orders req w)) = emitted w \<and>
         (\<exists>bad\<in>set its.
            (find_product (products (db w)) (i_product_id bad) = None \<and>
               snd (post_orders req w) =
                 Status500 (err_message (ProductNotFound (i_product_id bad)))) \<or>
            (\<exists>p. find_product (products (db w)) (i_product_id bad) = Some p \<and>
               p_stock p < i_quantity bad \<and>
               snd (post_orders req w) = Status500 (err_message (NotEnoughStock (p_name p)))))"
proof -
  let ?ids = "map i_product_id its"
  let ?prods = "filter (\<lambda>p. p_id p \<in> set ?ids) (products (db w))"
  have same: "find_product ?prods (i_product_id x) = find_product (products (db w)) (i_product_id x)"
    if "x \<in> set its" for x
    using that by (intro find_product_filter) simp
  from assms(4) same [OF assms(3)]
  have "find_product ?prods (i_product_id it) = None \<or>
        (\<exists>p. find_product ?prods (i_product_id it) = Some p \<and> p_stock p < i_quantity it)"
    by simp
  from map_items_fails [OF assms(3) this, of 0]
  obtain bad where bad: "bad \<in> set its" and
    "(find_product ?prods (i_product_id bad) = None \<and>
        map_items ?prods its 0 = Inl (ProductNotFound (i_product_id bad))) \<or>
     (\<exists>p. find_product ?prods (i_product_id bad) = Some p \<and> p_stock p < i_quantity bad \<and>
        map_items ?prods its 0 = Inl (NotEnoughStock (p_name p)))"
    by blast
  then consider
    (missing) "find_product (products (db w)) (i_product_id bad) = None"
      "map_items ?prods its 0 = Inl (ProductNotFound (i_product_id bad))"
  | (short) p where "find_product (products (db w)) (i_product_id bad) = Some p"
      "p_stock p < i_quantity bad" "map_items ?prods its 0 = Inl (NotEnoughStock (p_name p))"
    using same [OF bad] by auto
  then show ?thesis
  proof cases
    case missing
    from assms(1,2) missing(2)
    have "post_orders req w =
            (rollback (db w) (logc (SelectProductsIn ?ids) (logc BeginTransaction (logc GetConnection w))),
             Status500 (err_message (ProductNotFound (i_product_id bad))))"
      by (simp add: post_orders_def Let_def select_products_in_def)
    with bad missing(1) show ?thesis
      by (simp del: err_message.simps) blast
  next
    case short
    from assms(1,2) short(3)
    have "post_orders req w =
            (rollback (db w) (logc (SelectProductsIn ?ids) (logc BeginTransaction (logc GetConnection w))),
             Status500 (err_message (NotEnoughStock (p_name p))))"
      by (simp add: post_orders_def Let_def select_products_in_def)
    with bad short(1,2) show ?thesis
      by (simp del: err_message.simps) blast
  qed
qed

theorem failed_stock_check_rolls_back_witness:
  "\<not> missing_fields (order_of [line 2 10, line 9 1]) \<and>
   line 9 1 \<in> set [line 2 10, line 9 1] \<and>
   find_product (products (db shop)) (i_product_id (line 9 1)) = None \<and>
   db (fst (post_orders (order_of [line 2 10, line 9 1]) shop)) = db shop \<and>
   emitted (fst (post_orders (order_of [line 2 10, line 9 1]) shop)) = emitted shop"
proof -
  have h1: "\<not> missing_fields (order_of [line 2 10, line 9 1])"
    by code_simp
  have h2: "items (order_of [line 2 10, line 9 1]) = Some [line 2 10, line 9 1]"
    by (simp add: order_of_def)
  have h3: "line 9 1 \<in> set [line 2 10, line 9 1]"
    by simp
  have h4: "find_product (products (db shop)) (i_product_id (line 9 1)) = None"
    by code_simp
  from failed_stock_check_rolls_back [OF h1 h2 h3 disjI1 [OF h4]] h1 h3 h4
  show ?thesis by blast
qed

lemma post_orders_thrown:
  assumes "\<not> missing_fields req" and "items req = Some its"
    and "map_items (filter (\<lambda>p. p_id p \<in> set (map i_product_id its)) (products (db w))) its 0 = Inl e"
  shows "post_orders req w =
           (rollback (db w)
              (logc (SelectProductsIn (map i_product_id its))
                 (logc BeginTransaction (logc GetConnection w))),
            Status500 (err_message e))"
  using assms by (simp add: post_orders_def Let_def select_products_in_def)

lemma map_items_checked:
  "map_items prods its tot = Inr (ds, t) \<Longrightarrow>
   \<forall>d\<in>set ds. \<exists>p. find_product prods (d_product_id d) = Some p \<and> d_quantity d \<le> p_stock p"
proof (induction its arbitrary: tot ds t)
  case Nil
  then show ?case by simp
next
  case (Cons it its)
  from Cons.prems obtain p where p: "find_product prods (i_product_id it) = Some p"
    by (auto split: option.splits)
  let ?total = "p_price p * of_int (i_quantity it)"
  from Cons.prems p obtain ds' where
    rest: "map_items prods its (tot + ?total) = Inr (ds', t)" and
    ds: "ds = \<lparr>d_product_id = p_id p, d_product_name = p_name p,
                d_quantity = i_quantity it, d_price = p_price p, d_total = ?total\<rparr> # ds'" and
    enough: "i_quantity it \<le> p_stock p"
    by (auto split: if_splits sum.splits simp: Let_def)
  from p have "find_product prods (p_id p) = Some p"
    using find_product_id by fastforce
  with Cons.IH [OF rest] ds enough show ?case by auto
qed

lemma update_stock_loop_nonneg:
  "update_stock_loop prods ds w = Inr w' \<Longrightarrow>
   \<forall>d\<in>set ds. \<exists>p. find_product prods (d_product_id d) = Some p \<and> d_quantity d \<le> p_stock p \<Longrightarrow>
   \<forall>p\<in>set (products (db w)). 0 \<le> p_stock p \<Longrightarrow>
   \<forall>p\<in>set (products (db w')). 0 \<le> p_stock p"
proof (induction ds arbitrary: w)
  case Nil
  then show ?case by simp
next
  case (Cons d ds)
  from Cons.prems(2) obtain q where q: "find_product prods (d_product_id d) = Some q"
    and enough: "d_quantity d \<le> p_stock q" by auto
  let ?w1 = "update_stock (p_stock q - d_quantity d) (p_id q) w"
  from Cons.prems(1) q have step: "update_stock_loop prods ds ?w1 = Inr w'" by simp
  from Cons.prems(3) enough have "\<forall>p\<in>set (products (db ?w1)). 0 \<le> p_stock p"
    by auto
  with Cons.IH [OF step] Cons.prems(2) show ?case by simp
qed

lemma post_orders_nonneg:
  assumes nonneg: "\<forall>p\<in>set (products (db w)). 0 \<le> p_stock p"
  shows "\<forall>p\<in>set (products (db (fst (post_orders req w)))). 0 \<le> p_stock p"
proof (cases "missing_fields req")
  case True
  with nonneg show ?thesis by (simp add: post_orders_def)
next
  case False
  let ?its = "case items req of Some l \<Rightarrow> l | None \<Rightarrow> []"
  let ?ids = "map i_product_id ?its"
  let ?w1 = "logc (SelectProductsIn ?ids) (logc BeginTransaction (logc GetConnection w))"
  let ?prods = "filter (\<lambda>p. p_id p \<in> set ?ids) (products (db w))"
  show ?thesis
  proof (cases "map_items ?prods ?its 0")
    case (Inl e)
    with False nonneg show ?thesis
      by (simp add: post_orders_def Let_def select_products_in_def)
  next
    case (Inr r)
    obtain ds t where r: "r = (ds, t)" by (cases r)
    let ?w2 = "fst (insert_order (user_name req) t (payment_mode req) ?w1)"
    let ?oid = "snd (insert_order (user_name req) t (payment_mode req) ?w1)"
    let ?w3 = "insert_order_items ?oid ds ?w2"
    show ?thesis
    proof (cases "update_stock_loop ?prods ds ?w3")
      case (Inl ew)
      obtain e w4 where ew: "ew = (e, w4)" by (cases ew)
      with False Inr r Inl nonneg show ?thesis
        by (simp add: post_orders_def Let_def select_products_in_def split_def)
    next
      case loop: (Inr w4)
      from Inr r have checked:
        "\<forall>d\<in>set ds. \<exists>p. find_product ?prods (d_product_id d) = Some p \<and> d_quantity d \<le> p_stock p"
        using map_items_checked [of ?prods ?its 0 ds t] by simp
      from nonneg have "\<forall>p\<in>set (products (db ?w3)). 0 \<le> p_stock p" by simp
      from update_stock_loop_nonneg [OF loop checked this]
      have "\<forall>p\<in>set (products (db w4)). 0 \<le> p_stock p" .
      with False Inr r loop show ?thesis
        by (simp add: post_orders_def Let_def select_products_in_def split_def)
    qed
  qed
qed

text \<open>
  C4, as the code has it. A request whose \<open>user_name\<close> is empty or absent, whose
  \<open>payment_mode\<close> is empty or absent, or whose \<open>items\<close> are absent or the empty list is
  answered with status 400, and the world is left exactly as it was: no table changes and
  no database call is recorded.
\<close>

theorem missing_order_fields_rejected:
  "\<not> truthy (user_name req) \<or> \<not> truthy (payment_mode req) \<or> items req = None \<or> items req = Some []
   \<Longrightarrow> post_orders req w = (w, Status400 ''Missing required fields or items'')"
  by (auto simp: post_orders_def missing_fields_def)

theorem missing_order_fields_rejected_witness:
  "\<not> truthy (user_name \<lparr>user_name = Str [], payment_mode = Str ''cash'', items = Some [line 1 1]\<rparr>) \<and>
   post_orders \<lparr>user_name = Str [], payment_mode = Str ''cash'', items = Some [line 1 1]\<rparr> shop =
     (shop, Status400 ''Missing required fields or items'')"
proof -
  have h: "\<not> truthy (user_name \<lparr>user_name = Str [], payment_mode = Str ''cash'', items = Some [line 1 1]\<rparr>)"
    by simp
  from missing_order_fields_rejected [OF disjI1 [OF h], of shop] h show ?thesis by blast
qed

text \<open>
  C4 as stated fails on quantities: the handler does not look at the sign of a quantity.
  An order for zero units passes the validation, reaches the database and is stored.
\<close>

theorem zero_quantity_order_accepted:
  "i_quantity (line 2 0) = 0 \<and>
   snd (post_orders (order_of [line 2 0]) shop) = OrderPlaced 1 \<and>
   db_log (fst (post_orders (order_of [line 2 0]) shop)) =
     [GetConnection, BeginTransaction, SelectProductsIn [2], InsertOrder, InsertOrderItems,
      UpdateProductStock 2, Commit, Release] \<and>
   map o_id (orders (db (fst (post_orders (order_of [line 2 0]) shop)))) = [1]"
  by code_simp

text \<open>
  C5, as the code has it. Order placement sends no notification at all: the
  \<open>notifications\<close> table and the published events are the same after the request as
  before, for every request, so no notification step exists that could fail the order.
\<close>

theorem order_publishes_nothing:
  "notifications (db (fst (post_orders req w))) = notifications (db w) \<and>
   emitted (fst (post_orders req w)) = emitted w"
proof (cases "missing_fields req")
  case True
  then show ?thesis by (simp add: post_orders_def)
next
  case False
  let ?its = "case items req of Some l \<Rightarrow> l | None \<Rightarrow> []"
  let ?ids = "map i_product_id ?its"
  let ?w1 = "logc (SelectProductsIn ?ids) (logc BeginTransaction (logc GetConnection w))"
  let ?prods = "filter (\<lambda>p. p_id p \<in> set ?ids) (products (db w))"
  show ?thesis
  proof (cases "map_items ?prods ?its 0")
    case (Inl e)
    with False show ?thesis
      by (simp add: post_orders_def Let_def select_products_in_def)
  next
    case (Inr r)
    obtain ds t where r: "r = (ds, t)" by (cases r)
    let ?w2 = "fst (insert_order (user_name req) t (payment_mode req) ?w1)"
    let ?oid = "snd (insert_order (user_name req) t (payment_mode req) ?w1)"
    let ?w3 = "insert_order_items ?oid ds ?w2"
    show ?thesis
    proof (cases "update_stock_loop ?prods ds ?w3")
      case (Inl ew)
      obtain e w4 where ew: "ew = (e, w4)" by (cases ew)
      from Inl ew have "emitted w4 = emitted w"
        using update_stock_loop_keeps_err [of ?prods ds ?w3 e w4] by simp
      with False Inr r Inl ew show ?thesis
        by (simp add: post_orders_def Let_def select_products_in_def split_def)
    next
      case (Inr w4)
      from update_stock_loop_keeps [OF Inr]
      have "notifications (db w4) = notifications (db w)" "emitted w4 = emitted w" by simp_all
      with False \<open>map_items ?prods ?its 0 = Inr r\<close> r Inr show ?thesis
        by (simp add: post_orders_def Let_def select_products_in_def split_def)
    qed
  qed
qed

text \<open>
  C5 as stated fails: an accepted order that takes the tulips from 25 to 15, below the
  threshold of 20, leaves no notification row and publishes no event.
\<close>

theorem low_stock_order_not_notified:
  "snd (post_orders (order_of [line 2 10]) shop) = OrderPlaced 1 \<and>
   map p_stock (products (db (fst (post_orders (order_of [line 2 10]) shop)))) = [5, 15] \<and>
   notifications (db (fst (post_orders (order_of [line 2 10]) shop))) = [] \<and>
   emitted (fst (post_orders (order_of [line 2 10]) shop)) = []"
  by code_simp

subsection \<open>Status update\<close>

lemma starts_with_iff: "starts_with s n \<longleftrightarrow> (\<exists>b. s = n @ b)"
  by (induction s n rule: starts_with.induct) auto

lemma includes_str_iff: "includes_str s n \<longleftrightarrow> (\<exists>a b. s = a @ n @ b)"
proof (induction s)
  case Nil
  then show ?case by auto
next
  case (Cons c cs)
  show ?case
  proof
    assume "includes_str (c # cs) n"
    then consider "starts_with (c # cs) n" | "includes_str cs n" by auto
    then show "\<exists>a b. c # cs = a @ n @ b"
    proof cases
      case 1
      then obtain b where "c # cs = n @ b" by (auto simp: starts_with_iff)
      then have "c # cs = [] @ n @ b" by simp
      then show ?thesis by blast
    next
      case 2
      with Cons.IH obtain a b where "cs = a @ n @ b" by auto
      then have "c # cs = (c # a) @ n @ b" by simp
      then show ?thesis by blast
    qed
  next
    assume "\<exists>a b. c # cs = a @ n @ b"
    then obtain a b where ab: "c # cs = a @ n @ b" by blast
    show "includes_str (c # cs) n"
    proof (cases a)
      case Nil
      with ab have "starts_with (c # cs) n" by (auto simp: starts_with_iff)
      then show ?thesis by simp
    next
      case (Cons x a')
      with ab have "cs = a' @ n @ b" by simp
      with Cons.IH have "includes_str cs n" by blast
      then show ?thesis by simp
    qed
  qed
qed

lemma dropWhile_keeps_run:
  "n \<noteq> [] \<Longrightarrow> \<not> P (hd n) \<Longrightarrow> \<exists>a'. dropWhile P (a @ n @ b) = a' @ n @ b"
proof (induction a)
  case Nil
  then have "dropWhile P (n @ b) = n @ b" by (cases n) auto
  then show ?case by (intro exI [of _ "[]"]) simp
next
  case (Cons x a)
  then show ?case
    by (cases "P x") (auto intro: exI [of _ "x # a"])
qed

lemma dropWhile_run_back:
  "\<exists>a b. dropWhile P s = a @ n @ b \<Longrightarrow> \<exists>a b. s = a @ n @ b"
proof -
  assume "\<exists>a b. dropWhile P s = a @ n @ b"
  then obtain a b where "dropWhile P s = a @ n @ b" by blast
  then have "s = (takeWhile P s @ a) @ n @ b"
    using takeWhile_dropWhile_id [of P s] by simp
  then show ?thesis by blast
qed

lemma rev_run: "(\<exists>a b. rev s = a @ n @ b) \<longleftrightarrow> (\<exists>a b. s = a @ rev n @ b)"
proof
  assume "\<exists>a b. rev s = a @ n @ b"
  then obtain a b where "rev s = a @ n @ b" by blast
  then have "s = rev b @ rev n @ rev a" by (simp add: rev_swap)
  then show "\<exists>a b. s = a @ rev n @ b" by blast
next
  assume "\<exists>a b. s = a @ rev n @ b"
  then obtain a b where "s = a @ rev n @ b" by blast
  then have "rev s = rev b @ n @ rev a" by simp
  then show "\<exists>a b. rev s = a @ n @ b" by blast
qed

lemma dropWhile_run_iff:
  assumes "n \<noteq> []" and "\<not> P (hd n)"
  shows "(\<exists>a b. dropWhile P s = a @ n @ b) \<longleftrightarrow> (\<exists>a b. s = a @ n @ b)"
proof
  assume "\<exists>a b. dropWhile P s = a @ n @ b"
  then show "\<exists>a b. s = a @ n @ b" by (rule dropWhile_run_back)
next
  assume "\<exists>a b. s = a @ n @ b"
  then obtain a b where "s = a @ n @ b" by blast
  moreover from assms have "\<exists>a'. dropWhile P (a @ n @ b) = a' @ n @ b"
    by (rule dropWhile_keeps_run)
  ultimately show "\<exists>a b. dropWhile P s = a @ n @ b"
    by auto
qed

lemma includes_str_trim:
  assumes "n \<noteq> []" and "\<not> is_js_space (hd n)" and "\<not> is_js_space (last n)"
  shows "includes_str (trim s) n = includes_str s n"
proof -
  have rn: "rev n \<noteq> []" "\<not> is_js_space (hd (rev n))"
    using assms by (simp_all add: hd_rev)
  have "includes_str (trim s) n \<longleftrightarrow>
          (\<exists>a b. rev (dropWhile is_js_space (rev (dropWhile is_js_space s))) = a @ n @ b)"
    by (simp add: includes_str_iff trim_def)
  also have "\<dots> \<longleftrightarrow> (\<exists>a b. dropWhile is_js_space (rev (dropWhile is_js_space s)) = a @ rev n @ b)"
    using rev_run [of "dropWhile is_js_space (rev (dropWhile is_js_space s))" n] .
  also have "\<dots> \<longleftrightarrow> (\<exists>a b. rev (dropWhile is_js_space s) = a @ rev n @ b)"
    using rn by (rule dropWhile_run_iff)
  also have "\<dots> \<longleftrightarrow> (\<exists>a b. dropWhile is_js_space s = a @ n @ b)"
    using rev_run [of "dropWhile is_js_space s" "rev n"] by simp
  also have "\<dots> \<longleftrightarrow> (\<exists>a b. s = a @ n @ b)"
    using assms(1,2) by (rule dropWhile_run_iff)
  finally show ?thesis by (simp add: includes_str_iff)
qed

lemma ascii_lower_space: "is_js_space (ascii_lower c) = is_js_space c"
  by (auto simp: ascii_lower_def is_js_space_def Let_def)

lemma map_ascii_lower_trim: "map ascii_lower (trim s) = trim (map ascii_lower s)"
proof -
  have "is_js_space \<circ> ascii_lower = is_js_space"
    by (rule ext) (simp add: ascii_lower_space)
  then show ?thesis
    by (simp add: trim_def rev_map dropWhile_map)
qed

lemma regex_test_i_trim:
  assumes "n \<noteq> []" and "\<not> is_js_space (ascii_lower (hd n))" and "\<not> is_js_space (ascii_lower (last n))"
  shows "regex_test_i n (trim s) = regex_test_i n s"
  using assms
  by (simp add: regex_test_i_def map_ascii_lower_trim includes_str_trim hd_map last_map)

lemma sendNotification_fields [simp]:
  "orders (db (sendNotification ty ref msg w)) = orders (db w)"
  "products (db (sendNotification ty ref msg w)) = products (db w)"
  "order_items (db (sendNotification ty ref msg w)) = order_items (db w)"
  "notifications (db (sendNotification ty ref msg w)) =
     notifications (db w) @ [\<lparr>n_id = notifications_ai (db w), n_type = ty, n_reference_id = ref,
        n_message = msg, n_isRead = False, n_created_at = now w\<rparr>]"
  "emitted (sendNotification ty ref msg w) =
     emitted w @ [\<lparr>n_id = notifications_ai (db w), n_type = ty, n_reference_id = ref,
        n_message = msg, n_isRead = False, n_created_at = now w\<rparr>]"
  by (simp_all add: sendNotification_def Let_def logc_def)

lemma orderStatusNotification_orders [simp]:
  "orders (db (orderStatusNotification r w)) = orders (db w)"
  by (simp add: orderStatusNotification_def Let_def split: jstext.splits)

lemma needle_tests:
  "regex_test_i ''delivered'' ''Cancelled/Returned'' = False"
  "regex_test_i ''pending'' ''Cancelled/Returned'' = False"
  "regex_test_i ''pending'' ''Delivered'' = False"
  by code_simp+

lemma needle_trim:
  "regex_test_i ''cancelled'' (trim s) = regex_test_i ''cancelled'' s"
  "regex_test_i ''delivered'' (trim s) = regex_test_i ''delivered'' s"
  "regex_test_i ''pending'' (trim s) = regex_test_i ''pending'' s"
proof -
  show "regex_test_i ''cancelled'' (trim s) = regex_test_i ''cancelled'' s"
    by (rule regex_test_i_trim) code_simp+
  show "regex_test_i ''delivered'' (trim s) = regex_test_i ''delivered'' s"
    by (rule regex_test_i_trim) code_simp+
  show "regex_test_i ''pending'' (trim s) = regex_test_i ''pending'' s"
    by (rule regex_test_i_trim) code_simp+
qed

lemma normalizeStatus_chain: "normalizeStatus s =
          (if regex_test_i ''cancelled'' s then ''Cancelled/Returned''
           else if regex_test_i ''delivered'' s then ''Delivered''
           else if regex_test_i ''pending'' s then ''Pending'' else trim s)"
proof (cases "regex_test_i ''cancelled'' s")
  case True
  then show ?thesis
    unfolding normalizeStatus_def Let_def needle_trim
    by (simp only: if_True needle_tests needle_trim if_False)
next
  case c: False
  show ?thesis
  proof (cases "regex_test_i ''delivered'' s")
    case True
    with c show ?thesis
      unfolding normalizeStatus_def Let_def needle_trim
      by (simp only: if_True needle_tests needle_trim if_False)
  next
    case d: False
    show ?thesis
    proof (cases "regex_test_i ''pending'' s")
      case True
      with c d show ?thesis
        unfolding normalizeStatus_def Let_def needle_trim
        by (simp only: if_True needle_tests needle_trim if_False)
    next
      case False
      with c d show ?thesis
        unfolding normalizeStatus_def Let_def needle_trim
        by (simp only: if_True needle_tests needle_trim if_False)
    qed
  qed
qed

lemma update_order_status_fields:
  "orders (db (update_order_status st oid w)) =
     map (\<lambda>r. if o_id r = oid then r\<lparr>o_status := Str st\<rparr> else r) (orders (db w))"
  "emitted (update_order_status st oid w) = emitted w"
  "notifications (db (update_order_status st oid w)) = notifications (db w)"
  "products (db (update_order_status st oid w)) = products (db w)"
  by (simp_all add: update_order_status_def Let_def)

lemma status_written:
  "\<forall>r\<in>set (map (\<lambda>r. if o_id r = oid then r\<lparr>o_status := Str st\<rparr> else r) rows).
     o_id r = oid \<longrightarrow> o_status r = Str st"
proof (intro ballI impI)
  fix r
  assume a: "r \<in> set (map (\<lambda>r. if o_id r = oid then r\<lparr>o_status := Str st\<rparr> else r) rows)"
    and b: "o_id r = oid"
  from a obtain x where x: "r = (if o_id x = oid then x\<lparr>o_status := Str st\<rparr> else x)"
    unfolding set_map by blast
  show "o_status r = Str st"
  proof (cases "o_id x = oid")
    case True
    with x show ?thesis by simp
  next
    case False
    with x b show ?thesis by simp
  qed
qed

lemma status_stored_normalized:
  assumes "s \<noteq> []"
  shows "\<forall>r\<in>set (orders (db (fst (put_order_status oid (Str s) w)))).
           o_id r = oid \<longrightarrow> o_status r = Str (normalizeStatus s)"
proof -
  have "orders (db (fst (put_order_status oid (Str s) w))) =
          orders (db (update_order_status (normalizeStatus s) oid w))"
    using assms
    by (simp add: put_order_status_def select_order_def Let_def split: list.splits)
  then have "orders (db (fst (put_order_status oid (Str s) w))) =
          map (\<lambda>r. if o_id r = oid then r\<lparr>o_status := Str (normalizeStatus s)\<rparr> else r)
            (orders (db w))"
    by (simp only: update_order_status_fields)
  then show ?thesis
    using status_written [of oid "normalizeStatus s" "orders (db w)"] by (simp only:)
qed

text \<open>
  C6 at the status "Returned". It contains "returned", which the normalisation does not
  test: the status is stored as it was sent, not as \<open>Cancelled/Returned\<close>. The
  notification helper, which does test for "returned", then reports the order as
  cancelled/returned.
\<close>

theorem returned_status_stored_verbatim:
  "regex_test_i ''returned'' ''Returned'' \<and>
   normalizeStatus ''Returned'' = ''Returned'' \<and>
   map o_status (orders (db shop_with_order)) = [Str ''pending''] \<and>
   snd (put_order_status 1 (Str ''Returned'') shop_with_order) = StatusUpdated \<and>
   map o_status (orders (db (fst (put_order_status 1 (Str ''Returned'') shop_with_order)))) =
     [Str ''Returned''] \<and>
   map n_message (emitted (fst (put_order_status 1 (Str ''Returned'') shop_with_order))) =
     [''Order #1 for Ann has been cancelled/returned!'']"
  by code_simp

lemma update_order_status_absent:
  "\<forall>r\<in>set (orders (db w)). o_id r \<noteq> oid \<Longrightarrow>
   db (update_order_status s oid w) = db w"
proof -
  assume "\<forall>r\<in>set (orders (db w)). o_id r \<noteq> oid"
  then have "map (\<lambda>r. if o_id r = oid then r\<lparr>o_status := Str s\<rparr> else r) (orders (db w)) = orders (db w)"
    by (induction "orders (db w)") (auto intro: map_idI)
  then show ?thesis by (simp add: update_order_status_def Let_def)
qed

text \<open>
  C7, as the code has it. A missing or empty status is refused with status 400 and the
  world is unchanged. An order id that no row carries is not refused: the tables stay as
  they were, nothing is published, and the answer is the acknowledgement.
\<close>

theorem status_update_failures:
  "(\<not> truthy status \<longrightarrow> put_order_status oid status w = (w, Status400 ''Status is required'')) \<and>
   (truthy status \<and> (\<forall>r\<in>set (orders (db w)). o_id r \<noteq> oid) \<longrightarrow>
      snd (put_order_status oid status w) = StatusUpdated \<and>
      db (fst (put_order_status oid status w)) = db w \<and>
      emitted (fst (put_order_status oid status w)) = emitted w)"
proof (intro conjI impI)
  assume "\<not> truthy status"
  then show "put_order_status oid status w = (w, Status400 ''Status is required'')"
    by (simp add: put_order_status_def)
next
  assume h: "truthy status \<and> (\<forall>r\<in>set (orders (db w)). o_id r \<noteq> oid)"
  let ?w1 = "update_order_status (normalizeStatus (tmpl status)) oid w"
  from h have same: "db ?w1 = db w" by (simp add: update_order_status_absent)
  from h have none: "filter (\<lambda>r. o_id r = oid) (orders (db w)) = []"
    by (auto simp: filter_empty_conv)
  have em: "emitted ?w1 = emitted w" by (simp add: update_order_status_def Let_def)
  from h same none em show "snd (put_order_status oid status w) = StatusUpdated"
    and "db (fst (put_order_status oid status w)) = db w"
    and "emitted (fst (put_order_status oid status w)) = emitted w"
    by (simp_all add: put_order_status_def select_order_def Let_def)
qed

theorem status_update_failures_witness:
  "\<not> truthy Undefined \<and> truthy (Str ''Delivered'') \<and> orders (db shop) = [] \<and>
   put_order_status 5 Undefined shop = (shop, Status400 ''Status is required'') \<and>
   snd (put_order_status 5 (Str ''Delivered'') shop) = StatusUpdated \<and>
   db (fst (put_order_status 5 (Str ''Delivered'') shop)) = db shop"
proof -
  have h1: "\<not> truthy Undefined" by simp
  have h2: "truthy (Str ''Delivered'')" by simp
  have h3: "orders (db shop) = []" by (simp add: shop_def)
  then have h4: "\<forall>r\<in>set (orders (db shop)). o_id r \<noteq> 5" by simp
  from status_update_failures [of Undefined 5 shop]
    status_update_failures [of "Str ''Delivered''" 5 shop] h1 h2 h3 h4
  show ?thesis by blast
qed

text \<open>
  C7 as stated fails for an unknown order: with no order in the table, the update of
  order 5 runs its two statements and answers "Status updated!".
\<close>

theorem unknown_order_acknowledged:
  "map o_id (orders (db shop)) = [] \<and>
   put_order_status 5 (Str ''Delivered'') shop =
     (shop\<lparr>db_log := [UpdateOrderStatus 5, SelectOrder 5]\<rparr>, StatusUpdated)"
  by code_simp

subsection \<open>Accepted orders\<close>

text \<open>
  An order whose lines all pass the stock check is accepted; the stock loop then finds
  every product again, so its \<open>TypeError\<close> does not arise. The order row carries the sum
  of the line totals, each line is priced from the catalogue, and when no product is on
  two lines every stock goes down by the quantity ordered.
\<close>

lemma update_stock_loop_ok:
  "\<forall>d\<in>set ds. \<exists>p. find_product prods (d_product_id d) = Some p \<and> d_quantity d \<le> p_stock p \<Longrightarrow>
   \<exists>w'. update_stock_loop prods ds w = Inr w'"
  by (induction ds arbitrary: w) auto

lemma order_item_rows_totals:
  "map oi_total (order_item_rows oid k ds) = map d_total ds"
  by (induction ds arbitrary: k) simp_all

lemma order_item_rows_lines:
  "\<forall>l\<in>set (order_item_rows oid k ds). oi_order_id l = oid \<and>
     (\<exists>d\<in>set ds. oi_product_id l = d_product_id d \<and> oi_quantity l = d_quantity d \<and>
        oi_price l = d_price d \<and> oi_total l = d_total d)"
  by (induction ds arbitrary: k) auto

lemma map_items_priced:
  "map_items prods its tot = Inr (ds, t) \<Longrightarrow>
   \<forall>d\<in>set ds. \<exists>p. find_product prods (d_product_id d) = Some p \<and> d_price d = p_price p \<and>
      d_total d = p_price p * of_int (d_quantity d)"
proof (induction its arbitrary: tot ds t)
  case Nil
  then show ?case by simp
next
  case (Cons it its)
  from Cons.prems obtain p where p: "find_product prods (i_product_id it) = Some p"
    by (auto split: option.splits)
  let ?total = "p_price p * of_int (i_quantity it)"
  from Cons.prems p obtain ds' where
    rest: "map_items prods its (tot + ?total) = Inr (ds', t)" and
    ds: "ds = \<lparr>d_product_id = p_id p, d_product_name = p_name p,
                d_quantity = i_quantity it, d_price = p_price p, d_total = ?total\<rparr> # ds'"
    by (auto split: if_splits sum.splits simp: Let_def)
  from p have "find_product prods (p_id p) = Some p"
    using find_product_id by fastforce
  with Cons.IH [OF rest] ds show ?case by auto
qed

text \<open>The shape of an accepted order.\<close>

lemma post_orders_accepted:
  assumes ok: "snd (post_orders req w) = OrderPlaced oid"
  shows "\<exists>its ds t w4.
           items req = Some its \<and>
           map_items (filter (\<lambda>p. p_id p \<in> set (map i_product_id its)) (products (db w))) its 0
             = Inr (ds, t) \<and>
           oid = orders_ai (db w) \<and>
           update_stock_loop (filter (\<lambda>p. p_id p \<in> set (map i_product_id its)) (products (db w))) ds
             (insert_order_items oid ds
               (fst (insert_order (user_name req) t (payment_mode req)
                 (logc (SelectProductsIn (map i_product_id its))
                   (logc BeginTransaction (logc GetConnection w)))))) = Inr w4 \<and>
           fst (post_orders req w) = logc Release (logc Commit w4)"
proof -
  from ok have nm: "\<not> missing_fields req"
    by (auto simp: post_orders_def)
  then obtain its where its: "items req = Some its"
    by (auto simp: missing_fields_def split: option.splits)
  let ?ids = "map i_product_id its"
  let ?w1 = "logc (SelectProductsIn ?ids) (logc BeginTransaction (logc GetConnection w))"
  let ?prods = "filter (\<lambda>p. p_id p \<in> set ?ids) (products (db w))"
  show ?thesis
  proof (cases "map_items ?prods its 0")
    case (Inl e)
    with nm its ok show ?thesis
      by (simp add: post_orders_def Let_def select_products_in_def)
  next
    case (Inr r)
    obtain ds t where r: "r = (ds, t)" by (cases r)
    let ?w2 = "fst (insert_order (user_name req) t (payment_mode req) ?w1)"
    let ?w3 = "insert_order_items (orders_ai (db w)) ds ?w2"
    show ?thesis
    proof (cases "update_stock_loop ?prods ds ?w3")
      case (Inl ew)
      obtain e w4 where ew: "ew = (e, w4)" by (cases ew)
      with nm its ok Inr r Inl show ?thesis
        by (simp add: post_orders_def Let_def select_products_in_def split_def)
    next
      case loop: (Inr w4)
      with nm its ok Inr r have "oid = orders_ai (db w)"
        and "fst (post_orders req w) = logc Release (logc Commit w4)"
        by (simp_all add: post_orders_def Let_def select_products_in_def split_def)
      with its Inr r loop show ?thesis by auto
    qed
  qed
qed

lemma find_product_unfilter:
  "find_product (filter (\<lambda>p. p_id p \<in> S) ps) pid = Some p \<Longrightarrow> find_product ps pid = Some p"
proof -
  assume a: "find_product (filter (\<lambda>p. p_id p \<in> S) ps) pid = Some p"
  then have "p \<in> set (filter (\<lambda>p. p_id p \<in> S) ps)" and "p_id p = pid"
    by (auto dest: find_product_mem find_product_id)
  then have "pid \<in> S" by auto
  with a show ?thesis by (simp add: find_product_filter)
qed

lemma find_product_distinct:
  "distinct (map p_id ps) \<Longrightarrow> p \<in> set ps \<Longrightarrow> find_product ps (p_id p) = Some p"
  by (induction ps) (auto simp: find_product_def)

lemma accepted_order_total:
  assumes ok: "snd (post_orders req w) = OrderPlaced oid"
  shows "\<exists>row lines.
     orders (db (fst (post_orders req w))) = orders (db w) @ [row] \<and> o_id row = oid \<and>
     order_items (db (fst (post_orders req w))) = order_items (db w) @ lines \<and>
     o_total row = sum_list (map oi_total lines) \<and>
     (\<forall>l\<in>set lines. oi_order_id l = oid \<and>
        (\<exists>p. find_product (products (db w)) (oi_product_id l) = Some p \<and>
             oi_price l = p_price p \<and> oi_total l = p_price p * of_int (oi_quantity l)))"
proof -
  from post_orders_accepted [OF ok] obtain its ds t w4 where
    its: "items req = Some its" and
    mi: "map_items (filter (\<lambda>p. p_id p \<in> set (map i_product_id its)) (products (db w))) its 0
           = Inr (ds, t)" and
    oid: "oid = orders_ai (db w)" and
    loop: "update_stock_loop (filter (\<lambda>p. p_id p \<in> set (map i_product_id its)) (products (db w))) ds
             (insert_order_items oid ds
               (fst (insert_order (user_name req) t (payment_mode req)
                 (logc (SelectProductsIn (map i_product_id its))
                   (logc BeginTransaction (logc GetConnection w)))))) = Inr w4" and
    res: "fst (post_orders req w) = logc Release (logc Commit w4)"
    by blast
  let ?prods = "filter (\<lambda>p. p_id p \<in> set (map i_product_id its)) (products (db w))"
  let ?row = "\<lparr>o_id = oid, o_user_name = sql_param (user_name req), o_total = t,
               o_payment_mode = sql_param (payment_mode req), o_status = Str ''pending'',
               o_created_at = now w\<rparr>"
  let ?lines = "order_item_rows oid (order_items_ai (db w)) ds"
  from update_stock_loop_keeps [OF loop] res oid
  have o: "orders (db (fst (post_orders req w))) = orders (db w) @ [?row]"
    and l: "order_items (db (fst (post_orders req w))) = order_items (db w) @ ?lines"
    by simp_all
  from map_items_total [OF mi] have t: "o_total ?row = sum_list (map oi_total ?lines)"
    by (simp add: order_item_rows_totals)
  have "\<forall>l\<in>set ?lines. oi_order_id l = oid \<and>
        (\<exists>p. find_product (products (db w)) (oi_product_id l) = Some p \<and>
             oi_price l = p_price p \<and> oi_total l = p_price p * of_int (oi_quantity l))"
  proof
    fix l assume "l \<in> set ?lines"
    with order_item_rows_lines [of oid "order_items_ai (db w)" ds]
    obtain d where lo: "oi_order_id l = oid" and d: "d \<in> set ds"
      and eq: "oi_product_id l = d_product_id d" "oi_quantity l = d_quantity d"
        "oi_price l = d_price d" "oi_total l = d_total d"
      by blast
    from map_items_priced [OF mi] d obtain p where
      p: "find_product ?prods (d_product_id d) = Some p" "d_price d = p_price p"
        "d_total d = p_price p * of_int (d_quantity d)"
      by blast
    from p(1) have "find_product (products (db w)) (d_product_id d) = Some p"
      by (rule find_product_unfilter)
    with lo eq p(2,3) show "oi_order_id l = oid \<and>
        (\<exists>p. find_product (products (db w)) (oi_product_id l) = Some p \<and>
             oi_price l = p_price p \<and> oi_total l = p_price p * of_int (oi_quantity l))"
      by simp
  qed
  with o l t show ?thesis
    by (intro exI [of _ ?row] exI [of _ ?lines]) simp
qed

lemma map_items_ids:
  "map_items prods its tot = Inr (ds, t) \<Longrightarrow>
   ds = map (\<lambda>it. \<lparr>d_product_id = i_product_id it,
                    d_product_name = p_name (the (find_product prods (i_product_id it))),
                    d_quantity = i_quantity it,
                    d_price = p_price (the (find_product prods (i_product_id it))),
                    d_total = p_price (the (find_product prods (i_product_id it))) *
                              of_int (i_quantity it)\<rparr>) its"
proof (induction its arbitrary: tot ds t)
  case Nil
  then show ?case by simp
next
  case (Cons it its)
  from Cons.prems obtain p where p: "find_product prods (i_product_id it) = Some p"
    by (auto split: option.splits)
  let ?total = "p_price p * of_int (i_quantity it)"
  from Cons.prems p obtain ds' where
    rest: "map_items prods its (tot + ?total) = Inr (ds', t)" and
    ds: "ds = \<lparr>d_product_id = p_id p, d_product_name = p_name p,
                d_quantity = i_quantity it, d_price = p_price p, d_total = ?total\<rparr> # ds'"
    by (auto split: if_splits sum.splits simp: Let_def)
  from p have "p_id p = i_product_id it" by (rule find_product_id)
  with Cons.IH [OF rest] ds p show ?case by simp
qed

text \<open>What the stock loop leaves when no product is on two lines.\<close>

lemma update_stock_loop_distinct:
  "update_stock_loop prods ds w = Inr w' \<Longrightarrow> distinct (map d_product_id ds) \<Longrightarrow>
   products (db w') =
     map (\<lambda>p. case find (\<lambda>d. d_product_id d = p_id p) ds of
                 None \<Rightarrow> p
               | Some d \<Rightarrow>
                   p\<lparr>p_stock := p_stock (the (find_product prods (p_id p))) - d_quantity d\<rparr>)
       (products (db w))"
proof (induction ds arbitrary: w)
  case Nil
  then show ?case by simp
next
  case (Cons d ds)
  from Cons.prems(1) obtain q where q: "find_product prods (d_product_id d) = Some q"
    by (auto split: option.splits)
  then have qid: "p_id q = d_product_id d" by (rule find_product_id)
  let ?w1 = "update_stock (p_stock q - d_quantity d) (p_id q) w"
  from Cons.prems(1) q have step: "update_stock_loop prods ds ?w1 = Inr w'" by simp
  from Cons.prems(2) have dist: "distinct (map d_product_id ds)"
    and nin: "d_product_id d \<notin> d_product_id ` set ds" by simp_all
  from nin have fresh: "\<forall>e\<in>set ds. d_product_id e \<noteq> d_product_id d"
    by (metis imageI)
  from fresh have none: "find (\<lambda>e. d_product_id e = d_product_id d) ds = None"
    by (simp add: find_None_iff)
  have "products (db w') =
     map (\<lambda>p. case find (\<lambda>d. d_product_id d = p_id p) ds of
                 None \<Rightarrow> p
               | Some d \<Rightarrow>
                   p\<lparr>p_stock := p_stock (the (find_product prods (p_id p))) - d_quantity d\<rparr>)
       (products (db ?w1))"
    using Cons.IH [OF step dist] .
  also have "\<dots> =
     map (\<lambda>p. case find (\<lambda>e. d_product_id e = p_id p) (d # ds) of
                 None \<Rightarrow> p
               | Some e \<Rightarrow>
                   p\<lparr>p_stock := p_stock (the (find_product prods (p_id p))) - d_quantity e\<rparr>)
       (products (db w))"
    using q qid none by (simp add: o_def) 
  finally show ?case .
qed

lemma find_map_line:
  "find (\<lambda>d. d_product_id d = x)
     (map (\<lambda>it. \<lparr>d_product_id = i_product_id it, d_product_name = f it,
                    d_quantity = i_quantity it, d_price = g it, d_total = h it\<rparr>) its) =
   map_option (\<lambda>it. \<lparr>d_product_id = i_product_id it, d_product_name = f it,
                    d_quantity = i_quantity it, d_price = g it, d_total = h it\<rparr>)
     (find (\<lambda>it. i_product_id it = x) its)"
  by (induction its) simp_all

lemma accepted_order_stock_distinct:
  assumes ok: "snd (post_orders req w) = OrderPlaced oid"
    and its: "items req = Some its"
    and lines: "distinct (map i_product_id its)"
    and ids: "distinct (map p_id (products (db w)))"
  shows "products (db (fst (post_orders req w))) =
     map (\<lambda>p. case find (\<lambda>it. i_product_id it = p_id p) its of
                 None \<Rightarrow> p
               | Some it \<Rightarrow> p\<lparr>p_stock := p_stock p - i_quantity it\<rparr>)
       (products (db w))"
proof -
  let ?S = "set (map i_product_id its)"
  let ?prods = "filter (\<lambda>p. p_id p \<in> ?S) (products (db w))"
  from post_orders_accepted [OF ok] its obtain ds t w4 where
    mi: "map_items ?prods its 0 = Inr (ds, t)" and
    loop: "update_stock_loop ?prods ds
             (insert_order_items oid ds
               (fst (insert_order (user_name req) t (payment_mode req)
                 (logc (SelectProductsIn (map i_product_id its))
                   (logc BeginTransaction (logc GetConnection w)))))) = Inr w4" and
    res: "fst (post_orders req w) = logc Release (logc Commit w4)"
    by auto
  note ds = map_items_ids [OF mi]
  from ds have "map d_product_id ds = map i_product_id its"
    by (simp add: o_def)
  with lines have "distinct (map d_product_id ds)" by simp
  from update_stock_loop_distinct [OF loop this] res
  have after: "products (db (fst (post_orders req w))) =
     map (\<lambda>p. case find (\<lambda>d. d_product_id d = p_id p) ds of
                 None \<Rightarrow> p
               | Some d \<Rightarrow>
                   p\<lparr>p_stock := p_stock (the (find_product ?prods (p_id p))) - d_quantity d\<rparr>)
       (products (db w))"
    by simp
  have "(case find (\<lambda>d. d_product_id d = p_id p) ds of
                 None \<Rightarrow> p
               | Some d \<Rightarrow>
                   p\<lparr>p_stock := p_stock (the (find_product ?prods (p_id p))) - d_quantity d\<rparr>) =
        (case find (\<lambda>it. i_product_id it = p_id p) its of
                 None \<Rightarrow> p
               | Some it \<Rightarrow> p\<lparr>p_stock := p_stock p - i_quantity it\<rparr>)"
    if p: "p \<in> set (products (db w))" for p
  proof (cases "find (\<lambda>it. i_product_id it = p_id p) its")
    case None
    then show ?thesis by (simp add: ds find_map_line)
  next
    case (Some it)
    then have "i_product_id it = p_id p" "it \<in> set its"
      by (auto simp: find_Some_iff)
    then have "p_id p \<in> ?S" by force
    then have "find_product ?prods (p_id p) = find_product (products (db w)) (p_id p)"
      by (rule find_product_filter)
    also from ids p have "\<dots> = Some p" by (rule find_product_distinct)
    finally show ?thesis using Some by (simp add: ds find_map_line)
  qed
  with after show ?thesis by (simp cong: map_cong)
qed

lemma map_items_ok:
  "\<forall>it\<in>set its. \<exists>p. find_product prods (i_product_id it) = Some p \<and> i_quantity it \<le> p_stock p \<Longrightarrow>
   \<exists>ds t. map_items prods its tot = Inr (ds, t)"
proof (induction its arbitrary: tot)
  case Nil
  then show ?case by simp
next
  case (Cons it its)
  from Cons.prems obtain p where p: "find_product prods (i_product_id it) = Some p"
    and enough: "i_quantity it \<le> p_stock p" by auto
  from Cons.prems have "\<forall>it\<in>set its. \<exists>p. find_product prods (i_product_id it) = Some p \<and>
      i_quantity it \<le> p_stock p" by simp
  from Cons.IH [OF this, of "tot + p_price p * of_int (i_quantity it)"]
  obtain ds t where "map_items prods its (tot + p_price p * of_int (i_quantity it)) = Inr (ds, t)"
    by blast
  with p enough show ?case by (simp add: Let_def)
qed

lemma valid_order_accepted:
  assumes nm: "\<not> missing_fields req" and its: "items req = Some its"
    and pass: "\<forall>it\<in>set its. \<exists>p. find_product (products (db w)) (i_product_id it) = Some p \<and>
                 i_quantity it \<le> p_stock p"
  shows "snd (post_orders req w) = OrderPlaced (orders_ai (db w))"
proof -
  let ?ids = "map i_product_id its"
  let ?prods = "filter (\<lambda>p. p_id p \<in> set ?ids) (products (db w))"
  let ?w1 = "logc (SelectProductsIn ?ids) (logc BeginTransaction (logc GetConnection w))"
  have "\<forall>it\<in>set its. \<exists>p. find_product ?prods (i_product_id it) = Some p \<and>
          i_quantity it \<le> p_stock p"
  proof
    fix it assume it: "it \<in> set its"
    then have "find_product ?prods (i_product_id it) = find_product (products (db w)) (i_product_id it)"
      by (intro find_product_filter) simp
    with pass it show "\<exists>p. find_product ?prods (i_product_id it) = Some p \<and> i_quantity it \<le> p_stock p"
      by simp
  qed
  from map_items_ok [OF this, of 0] obtain ds t where mi: "map_items ?prods its 0 = Inr (ds, t)"
    by blast
  let ?w3 = "insert_order_items (orders_ai (db w)) ds
               (fst (insert_order (user_name req) t (payment_mode req) ?w1))"
  from map_items_checked [OF mi] have "\<exists>w4. update_stock_loop ?prods ds ?w3 = Inr w4"
    by (rule update_stock_loop_ok)
  then obtain w4 where "update_stock_loop ?prods ds ?w3 = Inr w4" ..
  with nm its mi show ?thesis
    by (simp add: post_orders_def Let_def select_products_in_def split_def)
qed

text \<open>
  C3 at an order that names the tulips on two lines, 3 and 4 units, with 25 in stock. Both
  lines are priced and stored, so 7 units are sold; the stock loop writes 25 - 3 and then
  25 - 4, each from the row read at the start, and the stock ends at 21 instead of 18.
\<close>

theorem repeated_product_lines_lose_decrement:
  "snd (post_orders (order_of [line 2 3, line 2 4]) shop) = OrderPlaced 1 \<and>
   map p_stock (products (db shop)) = [5, 25] \<and>
   map oi_quantity (order_items (db (fst (post_orders (order_of [line 2 3, line 2 4]) shop)))) =
     [3, 4] \<and>
   map p_stock (products (db (fst (post_orders (order_of [line 2 3, line 2 4]) shop)))) = [5, 21]"
  by code_simp

subsection \<open>Products\<close>

lemma update_product_fields:
  "notifications (db (update_product nm pr st cat ds img pid w)) = notifications (db w)"
  "notifications_ai (db (update_product nm pr st cat ds img pid w)) = notifications_ai (db w)"
  "emitted (update_product nm pr st cat ds img pid w) = emitted w"
  "now (update_product nm pr st cat ds img pid w) = now w"
  by (simp_all add: update_product_def Let_def)

text \<open>
  C8. When the product exists, an update sends a low-stock notification exactly when the
  stock crosses the threshold (the stored stock was at least 20 and the new stock is
  below 20): then the \<open>notifications\<close> table and the published events grow by that one
  record for the product, and otherwise both stay as they were.
\<close>

theorem low_stock_on_crossing_only:
  assumes "filter (\<lambda>p. p_id p = pid) (products (db w)) = prev # others"
  shows "notifications (db (fst (put_products pid body file w))) =
           notifications (db w) @
             (if 20 \<le> p_stock prev \<and> b_stock body < 20
              then [\<lparr>n_id = notifications_ai (db w), n_type = ''low on supplies'',
                      n_reference_id = pid,
                      n_message = low_stock_message (js_or (b_name body) (p_name prev)),
                      n_isRead = False, n_created_at = now w\<rparr>]
              else []) \<and>
         emitted (fst (put_products pid body file w)) =
           emitted w @
             (if 20 \<le> p_stock prev \<and> b_stock body < 20
              then [\<lparr>n_id = notifications_ai (db w), n_type = ''low on supplies'',
                      n_reference_id = pid,
                      n_message = low_stock_message (js_or (b_name body) (p_name prev)),
                      n_isRead = False, n_created_at = now w\<rparr>]
              else [])"
proof (cases "20 \<le> p_stock prev \<and> b_stock body < 20")
  case True
  with assms show ?thesis
    by (simp add: put_products_def Let_def checkLowStock_def sendNotification_fields
        update_product_fields)
next
  case False
  with assms show ?thesis
    by (auto simp: put_products_def Let_def update_product_fields)
qed

theorem low_stock_on_crossing_only_witness:
  "filter (\<lambda>p. p_id p = 1) (products (db shop)) = [rose] \<and> p_stock rose = 5 \<and>
   notifications (db (fst (put_products 1 (body_of ''Rose'' (5 / 2) 3) None shop))) = [] \<and>
   filter (\<lambda>p. p_id p = 2) (products (db shop)) = [tulip] \<and> p_stock tulip = 25 \<and>
   length (notifications (db (fst (put_products 2 (body_of ''Tulip'' 3 15) None shop)))) = 1 \<and>
   map n_reference_id (emitted (fst (put_products 2 (body_of ''Tulip'' 3 15) None shop))) = [2]"
proof -
  have r: "filter (\<lambda>p. p_id p = 1) (products (db shop)) = [rose]"
    by code_simp
  have t: "filter (\<lambda>p. p_id p = 2) (products (db shop)) = [tulip]"
    by code_simp
  have s: "p_stock rose = 5" "p_stock tulip = 25" "notifications (db shop) = []" "emitted shop = []"
    "b_stock (body_of ''Rose'' (5 / 2) 3) = 3" "b_stock (body_of ''Tulip'' 3 15) = 15"
    by (simp_all add: rose_def tulip_def shop_def body_of_def)
  from low_stock_on_crossing_only [OF r, of "body_of ''Rose'' (5 / 2) 3" None]
    low_stock_on_crossing_only [OF t, of "body_of ''Tulip'' 3 15" None] r t s
  show ?thesis by simp
qed

text \<open>
  The older handler sends the notification on every update that leaves the stock below
  20, crossing or not: from 5 to 3 it sends one.
\<close>

lemma older_update_notifies_below_threshold:
  "p_stock rose = 5 \<and>
   map n_reference_id
     (notifications (db (fst (put_products_older 1
        \<lparr>v_name = Undefined, v_price = None, v_stock = Some 3, v_category = Undefined,
         v_description = Undefined\<rparr> None shop)))) = [1]"
  by code_simp

text \<open>
  C9 at a complete request (name, numeric price and stock, an image). The row is
  inserted with the new id 3, and then the handler reads \<open>supplyAlert\<close>, which is not
  declared in its scope: the answer is status 500, "Failed to add product", and no id is
  returned.
\<close>

theorem create_product_answers_500:
  "snd (post_products (body_of ''Lily'' 4 30) (Some lily_png) shop) =
     Status500 ''Failed to add product'' \<and>
   map p_id (products (db (fst (post_products (body_of ''Lily'' 4 30) (Some lily_png) shop)))) =
     [1, 2, 3]"
  by code_simp

text \<open>
  C10. Every record of the product listing, and the record of a single-product read,
  carries \<open>supply_alert\<close> "LOW ON SUPPLIES" exactly when its stock is below 20 and "OK"
  exactly when it is not; the listing holds the rows of the table; and below 20 is also
  exactly when \<open>checkLowStock\<close> publishes a notification.
\<close>

theorem supply_alert_matches_threshold:
  "(\<exists>views. snd (get_products w) = ProductList views \<and>
      set (map pv_product views) = set (products (db w)) \<and>
      (\<forall>v\<in>set views.
         (supply_alert v = ''LOW ON SUPPLIES'') = (p_stock (pv_product v) < 20) \<and>
         (supply_alert v = ''OK'') = (\<not> p_stock (pv_product v) < 20))) \<and>
   (\<forall>p rest. filter (\<lambda>p. p_id p = pid) (products (db w)) = p # rest \<longrightarrow>
      (\<exists>v. snd (get_product pid w) = ProductJson v \<and> pv_product v = p \<and>
         (supply_alert v = ''LOW ON SUPPLIES'') = (p_stock p < 20) \<and>
         (supply_alert v = ''OK'') = (\<not> p_stock p < 20))) \<and>
   (\<forall>p w'. (p_stock p < 20) =
      (emitted (checkLowStock (p_id p) (p_stock p) (p_name p) w') \<noteq> emitted w'))"
proof (intro conjI allI impI)
  let ?rows = "rev (sort_key p_created_at (products (db w)))"
  have "snd (get_products w) = ProductList (map with_supply_alert ?rows)"
    by (simp add: get_products_def Let_def)
  moreover have "set (map pv_product (map with_supply_alert ?rows)) = set (products (db w))"
    by (simp add: with_supply_alert_def o_def)
  moreover have "\<forall>v\<in>set (map with_supply_alert ?rows).
         (supply_alert v = ''LOW ON SUPPLIES'') = (p_stock (pv_product v) < 20) \<and>
         (supply_alert v = ''OK'') = (\<not> p_stock (pv_product v) < 20)"
    by (simp add: with_supply_alert_def)
  ultimately show "\<exists>views. snd (get_products w) = ProductList views \<and>
      set (map pv_product views) = set (products (db w)) \<and>
      (\<forall>v\<in>set views.
         (supply_alert v = ''LOW ON SUPPLIES'') = (p_stock (pv_product v) < 20) \<and>
         (supply_alert v = ''OK'') = (\<not> p_stock (pv_product v) < 20))"
    by blast
next
  fix p rest
  assume "filter (\<lambda>p. p_id p = pid) (products (db w)) = p # rest"
  then have "snd (get_product pid w) = ProductJson (with_supply_alert p)"
    by (simp add: get_product_def Let_def)
  then show "\<exists>v. snd (get_product pid w) = ProductJson v \<and> pv_product v = p \<and>
         (supply_alert v = ''LOW ON SUPPLIES'') = (p_stock p < 20) \<and>
         (supply_alert v = ''OK'') = (\<not> p_stock p < 20)"
    by (simp add: with_supply_alert_def)
next
  fix p w'
  show "(p_stock p < 20) =
      (emitted (checkLowStock (p_id p) (p_stock p) (p_name p) w') \<noteq> emitted w')"
    by (simp add: checkLowStock_def sendNotification_fields)
qed

theorem supply_alert_matches_threshold_witness:
  "filter (\<lambda>p. p_id p = 1) (products (db shop)) = [rose] \<and>
   (\<exists>v. snd (get_product 1 shop) = ProductJson v \<and> pv_product v = rose \<and>
        supply_alert v = ''LOW ON SUPPLIES'') \<and>
   (\<exists>views. snd (get_products shop) = ProductList views \<and>
      set (map pv_product views) = {rose, tulip})"
proof -
  have r: "filter (\<lambda>p. p_id p = 1) (products (db shop)) = [rose]"
    by code_simp
  have s: "p_stock rose < 20" "set (products (db shop)) = {rose, tulip}"
    by (simp_all add: rose_def shop_def)
  from supply_alert_matches_threshold [of shop 1] r s
  show ?thesis by (metis (no_types, lifting))
qed

subsection \<open>Stock across requests\<close>

lemma insert_product_fields:
  "products (db (fst (insert_product nm pr st cat ds img w))) =
     products (db w) @
       [\<lparr>p_id = products_ai (db w), p_name = sql_param nm, p_price = pr, p_stock = st,
         p_category = sql_param cat, p_description = sql_param ds,
         p_image_url = sql_param img, p_created_at = now w\<rparr>]"
  "snd (insert_product nm pr st cat ds img w) = products_ai (db w)"
  by (simp_all add: insert_product_def Let_def)

lemma checkLowStock_products: "products (db (checkLowStock pid st nm w)) = products (db w)"
  by (simp add: checkLowStock_def)

lemma post_products_products:
  "products (db (fst (post_products body (Some f) w))) =
     products (db w) @
       [\<lparr>p_id = products_ai (db w), p_name = sql_param (b_name body), p_price = b_price body,
         p_stock = b_stock body, p_category = sql_param (b_category body),
         p_description = sql_param (b_description body),
         p_image_url = sql_param (js_or (f_path f) (f_secure_url f)), p_created_at = now w\<rparr>]"
  by (simp add: post_products_def Let_def split_def post_products_supplyAlert_def
      insert_product_fields checkLowStock_products)

lemma post_products_no_file: "fst (post_products body None w) = w"
  by (simp add: post_products_def)

lemma update_product_products:
  "products (db (update_product nm pr st cat ds img pid w)) =
     map (\<lambda>p. if p_id p = pid
               then p\<lparr>p_name := sql_param nm, p_price := pr, p_stock := st,
                      p_category := sql_param cat, p_description := sql_param ds,
                      p_image_url := sql_param img\<rparr>
               else p) (products (db w))"
  by (simp add: update_product_def Let_def)

lemma put_products_products:
  "products (db (fst (put_products pid body file w))) =
     map (\<lambda>p. if p_id p = pid
               then p\<lparr>p_name := sql_param (b_name body), p_price := b_price body,
                      p_stock := b_stock body, p_category := sql_param (b_category body),
                      p_description := sql_param (b_description body),
                      p_image_url := sql_param (case file of None \<Rightarrow> b_existingImageUrl body
                                       | Some f \<Rightarrow> js_or (f_path f) (f_secure_url f))\<rparr>
               else p) (products (db w))"
proof (cases "filter (\<lambda>p. p_id p = pid) (products (db w))")
  case Nil
  then have "\<forall>p\<in>set (products (db w)). p_id p \<noteq> pid"
    by (simp add: filter_empty_conv)
  then have "map (\<lambda>p. if p_id p = pid
               then p\<lparr>p_name := sql_param (b_name body), p_price := b_price body,
                      p_stock := b_stock body, p_category := sql_param (b_category body),
                      p_description := sql_param (b_description body),
                      p_image_url := sql_param (case file of None \<Rightarrow> b_existingImageUrl body
                                       | Some f \<Rightarrow> js_or (f_path f) (f_secure_url f))\<rparr>
               else p) (products (db w)) = products (db w)"
    by (intro map_idI) simp
  with Nil show ?thesis by (simp add: put_products_def Let_def)
next
  case (Cons prev others)
  then show ?thesis
    by (simp add: put_products_def Let_def update_product_products checkLowStock_products)
qed

lemma put_products_rows:
  assumes "r \<in> set (products (db (fst (put_products pid body file w))))"
  shows "(p_id r = pid \<and> p_stock r = b_stock body) \<or> (p_id r \<noteq> pid \<and> r \<in> set (products (db w)))"
proof -
  from assms obtain x where x: "x \<in> set (products (db w))" and
    r: "r = (if p_id x = pid
               then x\<lparr>p_name := sql_param (b_name body), p_price := b_price body,
                      p_stock := b_stock body, p_category := sql_param (b_category body),
                      p_description := sql_param (b_description body),
                      p_image_url := sql_param (case file of None \<Rightarrow> b_existingImageUrl body
                                       | Some f \<Rightarrow> js_or (f_path f) (f_secure_url f))\<rparr>
               else x)"
    unfolding put_products_products set_map by blast
  show ?thesis
  proof (cases "p_id x = pid")
    case True
    with r show ?thesis by simp
  next
    case False
    with r x show ?thesis by simp
  qed
qed

lemma handle_nonneg:
  assumes nonneg: "\<forall>p\<in>set (products (db w)). 0 \<le> p_stock p" and ok: "stock_not_negative r"
  shows "\<forall>p\<in>set (products (db (handle r w))). 0 \<le> p_stock p"
proof (cases r)
  case (ReqCreate body upl)
  show ?thesis
  proof (cases upl)
    case None
    with ReqCreate nonneg show ?thesis by (simp add: post_products_no_file)
  next
    case (Some f)
    with ReqCreate nonneg ok show ?thesis by (simp add: post_products_products)
  qed
next
  case (ReqUpdate pid body upl)
  show ?thesis
  proof
    fix p assume "p \<in> set (products (db (handle r w)))"
    with ReqUpdate have "p \<in> set (products (db (fst (put_products pid body upl w))))" by simp
    from put_products_rows [OF this] nonneg ok ReqUpdate show "0 \<le> p_stock p" by auto
  qed
next
  case (ReqOrder req)
  with post_orders_nonneg [OF nonneg, of req] show ?thesis by simp
qed

lemma run_requests_nonneg:
  "\<forall>p\<in>set (products (db w)). 0 \<le> p_stock p \<Longrightarrow> \<forall>r\<in>set rs. stock_not_negative r \<Longrightarrow>
   \<forall>p\<in>set (products (db (run_requests rs w))). 0 \<le> p_stock p"
proof (induction rs arbitrary: w)
  case Nil
  then show ?case by simp
next
  case (Cons r rs)
  from Cons.prems have "\<forall>p\<in>set (products (db (handle r w))). 0 \<le> p_stock p"
    by (intro handle_nonneg) simp_all
  from Cons.IH [OF this] Cons.prems(2) show ?case by simp
qed

text \<open>
  C2, as the code has it. Over every run of product creations, product updates and order
  placements in which each creation and update asks for a stock that is not negative, no
  stock is negative after any request of the run, when none was before it. An order with a
  line whose quantity exceeds the stock of its product is refused with the tables
  unchanged. An update writes the stock it is given into the product, and a creation
  stores a row with the stock it is given, whatever the sign.
\<close>

theorem stock_stays_nonnegative:
  assumes "\<forall>p\<in>set (products (db w)). 0 \<le> p_stock p"
    and "\<forall>r\<in>set rs. stock_not_negative r"
  shows "(\<forall>k. \<forall>p\<in>set (products (db (run_requests (take k rs) w))). 0 \<le> p_stock p) \<and>
         (\<forall>req its it p.
            \<not> missing_fields req \<and> items req = Some its \<and> it \<in> set its \<and>
            find_product (products (db w)) (i_product_id it) = Some p \<and>
            p_stock p < i_quantity it \<longrightarrow>
            (\<exists>e. snd (post_orders req w) = Status500 (err_message e)) \<and>
            db (fst (post_orders req w)) = db w) \<and>
         (\<forall>pid body upl. \<forall>p\<in>set (products (db (fst (put_products pid body upl w)))).
            p_id p = pid \<longrightarrow> p_stock p = b_stock body) \<and>
         (\<forall>body f. \<exists>row.
            products (db (fst (post_products body (Some f) w))) = products (db w) @ [row] \<and>
            p_stock row = b_stock body)"
proof (intro conjI allI impI)
  fix k
  from assms(2) have "\<forall>r\<in>set (take k rs). stock_not_negative r"
    by (meson in_set_takeD)
  with assms(1) show "\<forall>p\<in>set (products (db (run_requests (take k rs) w))). 0 \<le> p_stock p"
    by (rule run_requests_nonneg)
next
  fix req its it p
  assume h: "\<not> missing_fields req \<and> items req = Some its \<and> it \<in> set its \<and>
            find_product (products (db w)) (i_product_id it) = Some p \<and>
            p_stock p < i_quantity it"
  let ?prods = "filter (\<lambda>p. p_id p \<in> set (map i_product_id its)) (products (db w))"
  from h have "find_product ?prods (i_product_id it) = Some p"
    using find_product_filter [of "i_product_id it" "set (map i_product_id its)" "products (db w)"]
    by simp
  with h have "\<exists>e. map_items ?prods its 0 = Inl e"
    using map_items_fails [of it its ?prods 0] by auto
  then obtain e where "map_items ?prods its 0 = Inl e" ..
  with h have "post_orders req w =
           (rollback (db w)
              (logc (SelectProductsIn (map i_product_id its))
                 (logc BeginTransaction (logc GetConnection w))),
            Status500 (err_message e))"
    by (intro post_orders_thrown) simp_all
  then show "\<exists>e. snd (post_orders req w) = Status500 (err_message e)"
    and "db (fst (post_orders req w)) = db w"
    by (auto simp del: err_message.simps)
next
  fix pid body upl
  show "\<forall>p\<in>set (products (db (fst (put_products pid body upl w)))).
            p_id p = pid \<longrightarrow> p_stock p = b_stock body"
  proof (intro ballI impI)
    fix p assume "p \<in> set (products (db (fst (put_products pid body upl w))))" and "p_id p = pid"
    with put_products_rows [of p pid body upl w] show "p_stock p = b_stock body" by blast
  qed
next
  fix body f
  show "\<exists>row. products (db (fst (post_products body (Some f) w))) = products (db w) @ [row] \<and>
            p_stock row = b_stock body"
    by (simp add: post_products_products)
qed

theorem stock_stays_nonnegative_witness:
  "map p_stock (products (db shop)) = [5, 25] \<and>
   map stock_not_negative sample_requests = [True, True, True] \<and>
   map p_stock (products (db (run_requests sample_requests shop))) = [0, 0, 30] \<and>
   0 \<le> p_stock (hd (products (db (run_requests sample_requests shop)))) \<and>
   find_product (products (db shop)) (i_product_id (line 2 26)) = Some tulip \<and>
   p_stock tulip < i_quantity (line 2 26) \<and>
   db (fst (post_orders (order_of [line 1 2, line 2 26]) shop)) = db shop"
proof -
  have h0: "\<forall>p\<in>set (products (db shop)). 0 \<le> p_stock p"
    by (simp add: shop_def rose_def tulip_def)
  have s0: "map p_stock (products (db shop)) = [5, 25]"
    by code_simp
  have ok: "map stock_not_negative sample_requests = [True, True, True]"
    by code_simp
  then have h1: "\<forall>r\<in>set sample_requests. stock_not_negative r"
    by (simp add: sample_requests_def)
  have run: "map p_stock (products (db (run_requests sample_requests shop))) = [0, 0, 30]"
    by code_simp
  have len: "take 3 sample_requests = sample_requests"
    by (simp add: sample_requests_def)
  from run have "products (db (run_requests sample_requests shop)) \<noteq> []"
    by auto
  then have mem: "hd (products (db (run_requests sample_requests shop)))
      \<in> set (products (db (run_requests sample_requests shop)))"
    by (rule hd_in_set)
  note inst = stock_stays_nonnegative [OF h0 h1]
  from inst have "\<forall>p\<in>set (products (db (run_requests (take 3 sample_requests) shop))). 0 \<le> p_stock p"
    by blast
  with len mem have kept: "0 \<le> p_stock (hd (products (db (run_requests sample_requests shop))))"
    by simp
  have q1: "\<not> missing_fields (order_of [line 1 2, line 2 26])"
    by code_simp
  have q2: "items (order_of [line 1 2, line 2 26]) = Some [line 1 2, line 2 26]"
    by (simp add: order_of_def)
  have q3: "line 2 26 \<in> set [line 1 2, line 2 26]"
    by simp
  have q4: "find_product (products (db shop)) (i_product_id (line 2 26)) = Some tulip"
    by code_simp
  have q5: "p_stock tulip < i_quantity (line 2 26)"
    by code_simp
  from inst q1 q2 q3 q4 q5
  have "db (fst (post_orders (order_of [line 1 2, line 2 26]) shop)) = db shop"
    by blast
  with s0 ok run kept q4 q5 show ?thesis by blast
qed

text \<open>
  C2 as stated fails when a negative stock is asked for: neither the update nor the
  creation looks at the sign, and the value is stored.
\<close>

theorem negative_stock_is_stored:
  "map p_stock (products (db shop)) = [5, 25] \<and>
   map p_stock (products (db (fst (put_products 2 (body_of ''Tulip'' 3 (- 5)) None shop)))) =
     [5, - 5] \<and>
   map p_stock (products (db (fst (post_products (body_of ''Lily'' 4 (- 1)) (Some lily_png) shop)))) =
     [5, 25, - 1]"
  by code_simp

end
